theory Spec2Isabelle
  imports Main "HOL-Library.Char_ord" "HOL-Library.List_Lexorder" "HOL-Library.Multiset"
    "HOL-Library.Sublist"
begin

section \<open>Data model (src/lib/cacheManager.ts, hooks/useFavoritePresets.ts)\<close>

text \<open>
  Times (\<open>Date.now()\<close>, \<open>cached_at\<close>, \<open>ttl\<close>) are integers of milliseconds. Strings are
  \<open>string\<close>; their order (\<open>HOL-Library.Char_ord\<close>, \<open>HOL-Library.List_Lexorder\<close>) is the
  lexicographic order on character codes, which is the order IndexedDB gives to string keys.
\<close>

record Spell =
  spell_id :: string
  spell_name :: string
  spell_level :: int

record FavoritePreset =
  preset_id :: string
  preset_name :: string
  preset_description :: "string option"
  preset_spell_ids :: "string list"
  preset_user_id :: string
  preset_created_at :: string
  preset_updated_at :: string

text \<open>\<open>CachedData<T>\<close>: the optional \<open>ttl\<close> is \<open>None\<close> when the field is absent.\<close>

record 'a CachedData =
  data :: 'a
  cached_at :: int
  ttl :: "int option"

text \<open>The rows of the object stores: \<open>CachedData<Spell> & {id}\<close> and
  \<open>CachedData<FavoritePreset> & {id, user_id}\<close>.\<close>

record SpellRow = "Spell CachedData" +
  row_id :: string

record PresetRow = "FavoritePreset CachedData" +
  prow_id :: string
  prow_user_id :: string

text \<open>The payload of \<open>createPreset\<close> (\<open>newPresetData\<close>) and the \<open>updates\<close> object of
  \<open>updatePreset\<close>; an absent optional field is \<open>None\<close>. The edit dialog sends
  \<open>description: description.trim() || undefined\<close>, a key that is present with the value
  \<open>undefined\<close>: \<open>upd_description\<close> is \<open>None\<close> for an absent key and \<open>Some None\<close> for
  that.\<close>

record NewPresetData =
  new_name :: string
  new_description :: "string option"
  new_user_id :: string
  new_spell_ids :: "string list"

record PresetUpdates =
  upd_name :: "string option"
  upd_description :: "string option option"
  upd_spell_ids :: "string list option"

text \<open>\<open>PendingOperation\<close>: the \<open>type\<close> tag and the \<open>data\<close> payload it announces are one
  tagged value. \<open>ADD_SPELL\<close> and \<open>REMOVE_SPELL\<close> are declared by the type and never built
  by the code.\<close>

datatype OperationData =
    CREATE_PRESET NewPresetData
  | UPDATE_PRESET string PresetUpdates
  | DELETE_PRESET string
  | ADD_SPELL
  | REMOVE_SPELL

record PendingOperation =
  op_id :: string
  op_data :: OperationData
  op_timestamp :: int
  op_user_id :: string

record MetadataRow =
  meta_key :: string
  meta_value :: int
  meta_updated_at :: int

fun type_name :: "OperationData \<Rightarrow> string" where
  "type_name (CREATE_PRESET d) = ''CREATE_PRESET''"
| "type_name (UPDATE_PRESET i u) = ''UPDATE_PRESET''"
| "type_name (DELETE_PRESET i) = ''DELETE_PRESET''"
| "type_name ADD_SPELL = ''ADD_SPELL''"
| "type_name REMOVE_SPELL = ''REMOVE_SPELL''"

section \<open>The IndexedDB object stores\<close>

text \<open>
  An object store holds at most one row per primary key and hands its rows out in ascending
  key order; a read through an index with one index value hands out the matching rows in
  ascending primary-key order. A store is therefore the list of its rows in key order.
  \<open>store_put\<close> is \<open>IDBObjectStore.put\<close> (insert, or replace the row of the same key),
  \<open>store_delete\<close> is \<open>IDBObjectStore.delete\<close>.
\<close>

fun store_put :: "('r \<Rightarrow> string) \<Rightarrow> 'r \<Rightarrow> 'r list \<Rightarrow> 'r list" where
  "store_put k r [] = [r]"
| "store_put k r (x # xs) =
     (if k r < k x then r # x # xs
      else if k r = k x then r # xs
      else x # store_put k r xs)"

definition store_delete :: "('r \<Rightarrow> string) \<Rightarrow> string \<Rightarrow> 'r list \<Rightarrow> 'r list" where
  "store_delete k i rows = filter (\<lambda>x. k x \<noteq> i) rows"

definition keyed :: "('r \<Rightarrow> string) \<Rightarrow> 'r list \<Rightarrow> bool" where
  "keyed k rows = (sorted (map k rows) \<and> distinct (map k rows))"

text \<open>The database \<open>GrimoireCache\<close> as the browser keeps it (the \<open>magia_links\<close> store takes
  no part in what follows and is left out).\<close>

record IDBDatabase =
  spells :: "SpellRow list"
  favorite_presets :: "PresetRow list"
  pending_operations :: "PendingOperation list"
  metadata :: "MetadataRow list"

datatype IDBHandle = GrimoireCache

datatype error = StorageUnavailable | RemoteError

text \<open>
  The \<open>CacheManager\<close> singleton: \<open>db\<close> is the connection (\<open>null\<close> is \<open>None\<close>),
  \<open>initialized\<close> the flag; \<open>idb\<close> is the content of the database the connection reaches.
\<close>

record CacheManager =
  db :: "IDBHandle option"
  initialized :: bool
  idb :: IDBDatabase

text \<open>\<open>initialize\<close>: the boolean says whether \<open>indexedDB.open\<close> succeeds
  (\<open>request.onsuccess\<close>) or fails (\<open>request.onerror\<close>, which rejects the promise).\<close>

definition initialize :: "bool \<Rightarrow> CacheManager \<Rightarrow> error + CacheManager" where
  "initialize available cm =
     (if initialized cm then Inr cm
      else if available then Inr (cm\<lparr>db := Some GrimoireCache, initialized := True\<rparr>)
      else Inl StorageUnavailable)"

definition ensureInitialized :: "bool \<Rightarrow> CacheManager \<Rightarrow> error + CacheManager" where
  "ensureInitialized available cm =
     (if \<not> initialized cm then initialize available cm else Inr cm)"

text \<open>\<open>!cached.ttl || (now - cached.cached_at) < cached.ttl\<close>: JavaScript's \<open>!\<close> holds of an
  absent \<open>ttl\<close> and of \<open>0\<close>.\<close>

definition ttl_valid :: "int \<Rightarrow> ('a, 'm) CachedData_scheme \<Rightarrow> bool" where
  "ttl_valid now cached =
     (case ttl cached of
        None \<Rightarrow> True
      | Some t \<Rightarrow> t = 0 \<or> now - cached_at cached < t)"

text \<open>\<open>rows.filter(cached => ...).map(cached => cached.data)\<close>\<close>

definition valid_data :: "int \<Rightarrow> ('a, 'm) CachedData_scheme list \<Rightarrow> 'a list" where
  "valid_data now rows = map data (filter (ttl_valid now) rows)"

definition setMetadata ::
  "bool \<Rightarrow> int \<Rightarrow> string \<Rightarrow> int \<Rightarrow> CacheManager \<Rightarrow> (error + unit) \<times> CacheManager" where
  "setMetadata available now key v cm =
     (case ensureInitialized available cm of
        Inl e \<Rightarrow> (Inl e, cm)
      | Inr cm1 \<Rightarrow>
          (if db cm1 = None then (Inr (), cm1)
           else (Inr (), cm1\<lparr>idb := (idb cm1)\<lparr>metadata :=
                   store_put meta_key
                     \<lparr>meta_key = key, meta_value = v, meta_updated_at = now\<rparr>
                     (metadata (idb cm1))\<rparr>\<rparr>)))"

definition cacheSpell :: "int \<Rightarrow> Spell \<Rightarrow> SpellRow" where
  "cacheSpell t spell =
     \<lparr>data = spell, cached_at = t, ttl = Some (24 * 60 * 60 * 1000), row_id = spell_id spell\<rparr>"

definition cacheSpells ::
  "bool \<Rightarrow> int \<Rightarrow> Spell list \<Rightarrow> CacheManager \<Rightarrow> (error + unit) \<times> CacheManager" where
  "cacheSpells available now sps cm =
     (case ensureInitialized available cm of
        Inl e \<Rightarrow> (Inl e, cm)
      | Inr cm1 \<Rightarrow>
          (if db cm1 = None then (Inr (), cm1)
           else setMetadata available now ''spells_last_sync'' now
                  (cm1\<lparr>idb := (idb cm1)\<lparr>spells :=
                     foldl (\<lambda>st spell. store_put row_id (cacheSpell now spell) st)
                       (spells (idb cm1)) sps\<rparr>\<rparr>)))"

definition getCachedSpells ::
  "bool \<Rightarrow> int \<Rightarrow> CacheManager \<Rightarrow> (error + Spell list) \<times> CacheManager" where
  "getCachedSpells available now cm =
     (case ensureInitialized available cm of
        Inl e \<Rightarrow> (Inl e, cm)
      | Inr cm1 \<Rightarrow>
          (if db cm1 = None then (Inr [], cm1)
           else (Inr (valid_data now (spells (idb cm1))), cm1)))"

text \<open>
  The spells stores the program produces. \<open>cacheSpells\<close> is the only writer of the store:
  one put per spell, of the row \<open>cacheSpell\<close> builds. Whatever the order in which the puts
  of several calls reach the store, it is the empty store (also what \<open>clearCache\<close> leaves)
  followed by such puts.
\<close>

inductive spells_written :: "SpellRow list \<Rightarrow> bool" where
  no_spell: "spells_written []"
| put_spell: "spells_written rows \<Longrightarrow> spells_written (store_put row_id (cacheSpell t spell) rows)"

text \<open>\<open>clearUserPresets\<close>: a cursor over the \<open>user_id\<close> index deletes every row of the user.\<close>

definition clearUserPresets :: "string \<Rightarrow> CacheManager \<Rightarrow> CacheManager" where
  "clearUserPresets userId cm =
     (if db cm = None then cm
      else cm\<lparr>idb := (idb cm)\<lparr>favorite_presets :=
             filter (\<lambda>x. prow_user_id x \<noteq> userId) (favorite_presets (idb cm))\<rparr>\<rparr>)"

definition cachePreset :: "int \<Rightarrow> string \<Rightarrow> FavoritePreset \<Rightarrow> PresetRow" where
  "cachePreset t userId preset =
     \<lparr>data = preset, cached_at = t, ttl = None, prow_id = preset_id preset,
      prow_user_id = userId\<rparr>"

text \<open>\<open>presets.map(preset => store.put({...cachedPreset, id: preset.id, user_id: userId}))\<close>:
  one put per preset, in the order of the list.\<close>

definition put_presets ::
  "int \<Rightarrow> string \<Rightarrow> PresetRow list \<Rightarrow> FavoritePreset list \<Rightarrow> PresetRow list" where
  "put_presets t userId rows ps =
     foldl (\<lambda>st preset. store_put prow_id (cachePreset t userId preset) st) rows ps"

text \<open>\<open>cacheFavoritePresets\<close>: \<open>ensureInitialized\<close> is awaited before the \<open>try\<close>; what the
  \<open>try\<close> block raises is caught and logged.\<close>

definition cacheFavoritePresets ::
  "bool \<Rightarrow> int \<Rightarrow> FavoritePreset list \<Rightarrow> string \<Rightarrow> CacheManager
     \<Rightarrow> (error + unit) \<times> CacheManager" where
  "cacheFavoritePresets available now ps userId cm =
     (case ensureInitialized available cm of
        Inl e \<Rightarrow> (Inl e, cm)
      | Inr cm1 \<Rightarrow>
          (if db cm1 = None then (Inr (), cm1)
           else
             (let cm2 = clearUserPresets userId cm1;
                  cm3 = cm2\<lparr>idb := (idb cm2)\<lparr>favorite_presets :=
                          put_presets now userId (favorite_presets (idb cm2)) ps\<rparr>\<rparr>
              in (Inr (),
                  snd (setMetadata available now (''presets_last_sync_'' @ userId) now cm3)))))"

definition getCachedFavoritePresets ::
  "bool \<Rightarrow> string \<Rightarrow> CacheManager \<Rightarrow> (error + FavoritePreset list) \<times> CacheManager" where
  "getCachedFavoritePresets available userId cm =
     (case ensureInitialized available cm of
        Inl e \<Rightarrow> (Inl e, cm)
      | Inr cm1 \<Rightarrow>
          (if db cm1 = None then (Inr [], cm1)
           else (Inr (map data
                   (filter (\<lambda>x. prow_user_id x = userId) (favorite_presets (idb cm1)))), cm1)))"

text \<open>
  \<open>cacheFavoritePresets\<close> awaits \<open>clearUserPresets\<close>, which runs in a transaction of its
  own, and only then opens the transaction of the puts; the hooks start it without
  \<open>await\<close>. Another call can therefore run between the two. The two parts of one call:
  up to the end of the clearing, and from the puts on (the cached time is read there).
\<close>

definition cacheFavoritePresets_clear ::
  "bool \<Rightarrow> string \<Rightarrow> CacheManager \<Rightarrow> (error + unit) \<times> CacheManager" where
  "cacheFavoritePresets_clear available userId cm =
     (case ensureInitialized available cm of
        Inl e \<Rightarrow> (Inl e, cm)
      | Inr cm1 \<Rightarrow> (Inr (), clearUserPresets userId cm1))"

definition cacheFavoritePresets_put ::
  "bool \<Rightarrow> int \<Rightarrow> FavoritePreset list \<Rightarrow> string \<Rightarrow> CacheManager \<Rightarrow> CacheManager" where
  "cacheFavoritePresets_put available now ps userId cm =
     (if db cm = None then cm
      else snd (setMetadata available now (''presets_last_sync_'' @ userId) now
                  (cm\<lparr>idb := (idb cm)\<lparr>favorite_presets :=
                        put_presets now userId (favorite_presets (idb cm)) ps\<rparr>\<rparr>)))"

text \<open>The parts of several calls, in the order in which they reach the database.\<close>

datatype CacheWrite = ClearRows string | PutRows int "FavoritePreset list" string

fun cache_write :: "bool \<Rightarrow> CacheWrite \<Rightarrow> CacheManager \<Rightarrow> CacheManager" where
  "cache_write available (ClearRows userId) cm = snd (cacheFavoritePresets_clear available userId cm)"
| "cache_write available (PutRows t ps userId) cm = cacheFavoritePresets_put available t ps userId cm"

fun cache_writes :: "bool \<Rightarrow> CacheWrite list \<Rightarrow> CacheManager \<Rightarrow> CacheManager" where
  "cache_writes available [] cm = cm"
| "cache_writes available (w # ws) cm = cache_writes available ws (cache_write available w cm)"

text \<open>
  The presets stores the program produces. \<open>cacheFavoritePresets\<close> is the only writer of
  the store: it deletes the rows of a user and puts rows that \<open>cachePreset\<close> builds. In
  whatever order the parts of its calls run, the store is the empty store (also what
  \<open>clearCache\<close> leaves) followed by such deletions and puts.
\<close>

inductive presets_written :: "PresetRow list \<Rightarrow> bool" where
  no_preset: "presets_written []"
| clear_user: "presets_written rows \<Longrightarrow>
     presets_written (filter (\<lambda>x. prow_user_id x \<noteq> userId) rows)"
| put_preset: "presets_written rows \<Longrightarrow>
     presets_written (store_put prow_id (cachePreset t userId preset) rows)"

subsection \<open>The pending-operation queue\<close>

text \<open>How a template string renders an integer: decimal digits, most significant first,
  after a minus sign for a negative one.\<close>

definition digit :: "nat \<Rightarrow> char" where
  "digit d = ''0123456789'' ! d"

fun decimal :: "nat \<Rightarrow> string \<Rightarrow> string" where
  "decimal n acc =
     (if n < 10 then digit n # acc else decimal (n div 10) (digit (n mod 10) # acc))"

definition render_int :: "int \<Rightarrow> string" where
  "render_int i = (if 0 \<le> i then decimal (nat i) [] else CHR ''-'' # decimal (nat (- i)) [])"

text \<open>
  \<open>addPendingOperation\<close>: \<open>t_id\<close> and \<open>t_stamp\<close> are the two readings of \<open>Date.now()\<close>,
  \<open>rnd\<close> is how the template string renders \<open>Math.random()\<close>. The result is the new id, or
  the empty string when there is no connection.
\<close>

definition addPendingOperation ::
  "bool \<Rightarrow> int \<Rightarrow> string \<Rightarrow> int \<Rightarrow> OperationData \<Rightarrow> string \<Rightarrow> CacheManager
     \<Rightarrow> (error + string) \<times> CacheManager" where
  "addPendingOperation available t_id rnd t_stamp d userId cm =
     (case ensureInitialized available cm of
        Inl e \<Rightarrow> (Inl e, cm)
      | Inr cm1 \<Rightarrow>
          (if db cm1 = None then (Inr [], cm1)
           else
             (let i = type_name d @ ''_'' @ render_int t_id @ ''_'' @ rnd;
                  pendingOp = \<lparr>op_id = i, op_data = d, op_timestamp = t_stamp,
                               op_user_id = userId\<rparr>
              in (Inr i, cm1\<lparr>idb := (idb cm1)\<lparr>pending_operations :=
                    store_put op_id pendingOp (pending_operations (idb cm1))\<rparr>\<rparr>))))"

definition getPendingOperations ::
  "bool \<Rightarrow> string \<Rightarrow> CacheManager \<Rightarrow> (error + PendingOperation list) \<times> CacheManager" where
  "getPendingOperations available userId cm =
     (case ensureInitialized available cm of
        Inl e \<Rightarrow> (Inl e, cm)
      | Inr cm1 \<Rightarrow>
          (if db cm1 = None then (Inr [], cm1)
           else (Inr (filter (\<lambda>x. op_user_id x = userId) (pending_operations (idb cm1))),
                 cm1)))"

definition removePendingOperation ::
  "bool \<Rightarrow> string \<Rightarrow> CacheManager \<Rightarrow> (error + unit) \<times> CacheManager" where
  "removePendingOperation available i cm =
     (case ensureInitialized available cm of
        Inl e \<Rightarrow> (Inl e, cm)
      | Inr cm1 \<Rightarrow>
          (if db cm1 = None then (Inr (), cm1)
           else (Inr (), cm1\<lparr>idb := (idb cm1)\<lparr>pending_operations :=
                   store_delete op_id i (pending_operations (idb cm1))\<rparr>\<rparr>)))"

section \<open>The hooks (hooks/useFavoritePresetsWithCache.ts, hooks/useNetworkStatus.ts)\<close>

text \<open>
  The state the two hooks keep, with the \<open>cacheManager\<close> singleton they share. \<open>supabase\<close>
  is the list of calls issued to the remote store, oldest first; \<open>toasts\<close> the messages
  shown. Each \<open>await\<close> is a step of a sequential run, and a cache write that is started
  without \<open>await\<close> (\<open>.catch(console.warn)\<close>) is run where it is started, its failure
  dropped; what such writes do to the presets store when they overlap is told by
  \<open>cache_writes\<close>, and what passes over the queue do when they overlap by
  \<open>overlapping_passes\<close>.
\<close>

datatype RemoteCall =
    Insert NewPresetData
  | Update PresetUpdates string string
  | Delete string string

datatype Toast =
    Sincronizado nat
  | OperacoesFalharam nat
  | FalhaAoSincronizar

record NetworkStatus =
  isOnline :: bool
  isConnected :: bool
  pendingOperations :: nat
  lastSyncTime :: "int option"
  syncing :: bool

record App =
  presets :: "FavoritePreset list"
  activePresetId :: "string option"
  error_msg :: "string option"
  cacheManager :: CacheManager
  status :: NetworkStatus
  supabase :: "RemoteCall list"
  toasts :: "Toast list"

text \<open>
  What a call depends on and the state does not hold: the signed-in user (\<open>user?.id\<close>),
  whether \<open>indexedDB.open\<close> succeeds, the clock (\<open>Date.now()\<close> and
  \<open>new Date().toISOString()\<close>), the rendering of \<open>Math.random()\<close>, and the remote
  store's answers: \<open>remote_error\<close> for the call of a direct mutation, \<open>remote_row\<close> the
  row an insert returns, \<open>replay_error\<close> for the replay of a queued operation.
\<close>

record Env =
  user :: "string option"
  available :: bool
  now :: int
  iso_now :: string
  random :: string
  remote_error :: bool
  remote_row :: FavoritePreset
  replay_error :: "PendingOperation \<Rightarrow> bool"

definition updatePendingCount :: "Env \<Rightarrow> App \<Rightarrow> App" where
  "updatePendingCount env s =
     (case user env of
        None \<Rightarrow> s
      | Some uid \<Rightarrow>
          (case getPendingOperations (available env) uid (cacheManager s) of
             (Inl e, cm) \<Rightarrow> s\<lparr>cacheManager := cm\<rparr>
           | (Inr pending, cm) \<Rightarrow>
               s\<lparr>cacheManager := cm,
                 status := (status s)\<lparr>pendingOperations := length pending\<rparr>\<rparr>))"

text \<open>\<open>cacheManager.cacheFavoritePresets(updatedPresets, user.id).catch(console.warn)\<close>\<close>

definition cache_presets_unawaited :: "Env \<Rightarrow> FavoritePreset list \<Rightarrow> string \<Rightarrow> App \<Rightarrow> App" where
  "cache_presets_unawaited env ps uid s =
     s\<lparr>cacheManager :=
         snd (cacheFavoritePresets (available env) (now env) ps uid (cacheManager s))\<rparr>"

definition enqueue :: "Env \<Rightarrow> OperationData \<Rightarrow> string \<Rightarrow> App \<Rightarrow> (error + string) \<times> App" where
  "enqueue env d uid s =
     (case addPendingOperation (available env) (now env) (random env) (now env) d uid
             (cacheManager s) of
        (r, cm) \<Rightarrow> (r, s\<lparr>cacheManager := cm\<rparr>))"

definition offline_id :: "Env \<Rightarrow> string \<Rightarrow> string" where
  "offline_id env uid = ''offline_'' @ uid @ ''_'' @ render_int (now env)"

definition createPreset ::
  "Env \<Rightarrow> string \<Rightarrow> string option \<Rightarrow> App \<Rightarrow> (error + FavoritePreset option) \<times> App" where
  "createPreset env name description s =
     (case user env of
        None \<Rightarrow> (Inr None, s)
      | Some uid \<Rightarrow>
          (let newPresetData = \<lparr>new_name = name, new_description = description,
                                 new_user_id = uid, new_spell_ids = []\<rparr>
           in if isConnected (status s) then
                (let s1 = s\<lparr>supabase := supabase s @ [Insert newPresetData]\<rparr>
                 in if remote_error env then
                      (Inr None, s1\<lparr>error_msg := Some ''Failed to create preset''\<rparr>)
                    else
                      (let d = remote_row env;
                           updatedPresets = presets s1 @ [d];
                           s2 = s1\<lparr>presets := updatedPresets,
                                   activePresetId := Some (preset_id d)\<rparr>
                       in (Inr (Some d), cache_presets_unawaited env updatedPresets uid s2)))
              else
                (let offlinePreset =
                       \<lparr>preset_id = offline_id env uid, preset_name = name,
                        preset_description = description, preset_spell_ids = [],
                        preset_user_id = uid, preset_created_at = iso_now env,
                        preset_updated_at = iso_now env\<rparr>;
                     updatedPresets = presets s @ [offlinePreset];
                     s1 = s\<lparr>presets := updatedPresets,
                             activePresetId := Some (preset_id offlinePreset)\<rparr>;
                     s2 = cache_presets_unawaited env updatedPresets uid s1
                 in case enqueue env (CREATE_PRESET newPresetData) uid s2 of
                      (Inl e, s3) \<Rightarrow> (Inl e, s3)
                    | (Inr i, s3) \<Rightarrow> (Inr (Some offlinePreset), updatePendingCount env s3))))"

text \<open>\<open>{ ...preset, ...updates }\<close>\<close>

definition apply_updates :: "FavoritePreset \<Rightarrow> PresetUpdates \<Rightarrow> FavoritePreset" where
  "apply_updates preset updates =
     preset\<lparr>preset_name := (case upd_name updates of None \<Rightarrow> preset_name preset | Some n \<Rightarrow> n),
            preset_description :=
              (case upd_description updates of
                 None \<Rightarrow> preset_description preset | Some d \<Rightarrow> d),
            preset_spell_ids :=
              (case upd_spell_ids updates of
                 None \<Rightarrow> preset_spell_ids preset | Some l \<Rightarrow> l)\<rparr>"

definition updatePreset ::
  "Env \<Rightarrow> string \<Rightarrow> PresetUpdates \<Rightarrow> App \<Rightarrow> (error + bool) \<times> App" where
  "updatePreset env i updates s =
     (case user env of
        None \<Rightarrow> (Inr False, s)
      | Some uid \<Rightarrow>
          (if isConnected (status s) \<and> \<not> prefix ''offline_'' i then
             (let s1 = s\<lparr>supabase := supabase s @ [Update updates i uid]\<rparr>
              in if remote_error env then
                   (Inr False, s1\<lparr>error_msg := Some ''Failed to update preset''\<rparr>)
                 else
                   (let updatedPresets =
                          map (\<lambda>preset. if preset_id preset = i
                                         then apply_updates preset updates else preset)
                            (presets s1);
                        s2 = s1\<lparr>presets := updatedPresets\<rparr>
                    in (Inr True, cache_presets_unawaited env updatedPresets uid s2)))
           else
             (let updatedPresets =
                    map (\<lambda>preset. if preset_id preset = i
                                   then (apply_updates preset updates)
                                          \<lparr>preset_updated_at := iso_now env\<rparr>
                                   else preset)
                      (presets s);
                  s1 = s\<lparr>presets := updatedPresets\<rparr>;
                  s2 = cache_presets_unawaited env updatedPresets uid s1
              in if \<not> prefix ''offline_'' i then
                   (case enqueue env (UPDATE_PRESET i updates) uid s2 of
                      (Inl e, s3) \<Rightarrow> (Inl e, s3)
                    | (Inr q, s3) \<Rightarrow> (Inr True, updatePendingCount env s3))
                 else (Inr True, s2))))"

definition first_id :: "FavoritePreset list \<Rightarrow> string option" where
  "first_id ps = (case ps of [] \<Rightarrow> None | p # rest \<Rightarrow> Some (preset_id p))"

definition deletePreset :: "Env \<Rightarrow> string \<Rightarrow> App \<Rightarrow> (error + bool) \<times> App" where
  "deletePreset env i s =
     (case user env of
        None \<Rightarrow> (Inr False, s)
      | Some uid \<Rightarrow>
          (if isConnected (status s) \<and> \<not> prefix ''offline_'' i then
             (let s1 = s\<lparr>supabase := supabase s @ [Delete i uid]\<rparr>
              in if remote_error env then
                   (Inr False, s1\<lparr>error_msg := Some ''Failed to delete preset''\<rparr>)
                 else
                   (let updatedPresets = filter (\<lambda>preset. preset_id preset \<noteq> i) (presets s1);
                        s2 = s1\<lparr>presets := updatedPresets\<rparr>;
                        s3 = cache_presets_unawaited env updatedPresets uid s2
                    in (Inr True,
                        if activePresetId s3 = Some i
                        then s3\<lparr>activePresetId := first_id updatedPresets\<rparr> else s3)))
           else
             (let updatedPresets = filter (\<lambda>preset. preset_id preset \<noteq> i) (presets s);
                  s1 = s\<lparr>presets := updatedPresets\<rparr>;
                  s2 = cache_presets_unawaited env updatedPresets uid s1;
                  s3 = (if activePresetId s2 = Some i
                        then s2\<lparr>activePresetId := first_id updatedPresets\<rparr> else s2)
              in if \<not> prefix ''offline_'' i then
                   (case enqueue env (DELETE_PRESET i) uid s3 of
                      (Inl e, s4) \<Rightarrow> (Inl e, s4)
                    | (Inr q, s4) \<Rightarrow> (Inr True, updatePendingCount env s4))
                 else (Inr True, s3))))"

text \<open>\<open>presetId || activePresetId\<close> and \<open>!targetPresetId\<close>: an absent id and the empty string
  are both falsy.\<close>

definition or_else :: "string option \<Rightarrow> string option \<Rightarrow> string option" where
  "or_else a b = (case a of None \<Rightarrow> b | Some x \<Rightarrow> (if x = [] then b else Some x))"

definition addSpellToPreset ::
  "Env \<Rightarrow> string \<Rightarrow> string option \<Rightarrow> App \<Rightarrow> (error + bool) \<times> App" where
  "addSpellToPreset env spellId presetId s =
     (case or_else (or_else presetId (activePresetId s)) None of
        None \<Rightarrow> (Inr False, s)
      | Some targetPresetId \<Rightarrow>
          (case find (\<lambda>p. preset_id p = targetPresetId) (presets s) of
             None \<Rightarrow> (Inr False, s)
           | Some preset \<Rightarrow>
               (if spellId \<in> set (preset_spell_ids preset) then (Inr True, s)
                else updatePreset env targetPresetId
                       \<lparr>upd_name = None, upd_description = None,
                        upd_spell_ids = Some (preset_spell_ids preset @ [spellId])\<rparr> s)))"

definition removeSpellFromPreset ::
  "Env \<Rightarrow> string \<Rightarrow> string option \<Rightarrow> App \<Rightarrow> (error + bool) \<times> App" where
  "removeSpellFromPreset env spellId presetId s =
     (case or_else (or_else presetId (activePresetId s)) None of
        None \<Rightarrow> (Inr False, s)
      | Some targetPresetId \<Rightarrow>
          (case find (\<lambda>p. preset_id p = targetPresetId) (presets s) of
             None \<Rightarrow> (Inr False, s)
           | Some preset \<Rightarrow>
               updatePreset env targetPresetId
                 \<lparr>upd_name = None, upd_description = None,
                  upd_spell_ids = Some (filter (\<lambda>x. x \<noteq> spellId) (preset_spell_ids preset))\<rparr>
                 s))"

definition createDefaultOfflinePreset :: "Env \<Rightarrow> App \<Rightarrow> (error + unit) \<times> App" where
  "createDefaultOfflinePreset env s =
     (case user env of
        None \<Rightarrow> (Inr (), s)
      | Some uid \<Rightarrow>
          (let defaultPreset =
                 \<lparr>preset_id = offline_id env uid, preset_name = ''MY GRIMOIRE (Offline)'',
                  preset_description = Some ''Your personal collection of favorite spells'',
                  preset_spell_ids = [], preset_user_id = uid,
                  preset_created_at = iso_now env, preset_updated_at = iso_now env\<rparr>;
               s1 = s\<lparr>presets := [defaultPreset],
                       activePresetId := Some (preset_id defaultPreset)\<rparr>
           in case cacheFavoritePresets (available env) (now env) [defaultPreset] uid
                     (cacheManager s1) of
                (Inl e, cm) \<Rightarrow> (Inl e, s1\<lparr>cacheManager := cm\<rparr>)
              | (Inr u, cm) \<Rightarrow>
                  (case enqueue env
                          (CREATE_PRESET
                             \<lparr>new_name = ''MY GRIMOIRE'',
                              new_description =
                                Some ''Your personal collection of favorite spells'',
                              new_user_id = uid, new_spell_ids = []\<rparr>)
                          uid (s1\<lparr>cacheManager := cm\<rparr>) of
                     (Inl e, s2) \<Rightarrow> (Inl e, s2)
                   | (Inr q, s2) \<Rightarrow> (Inr (), updatePendingCount env s2))))"

subsection \<open>Replay of the queue (useNetworkStatus)\<close>

text \<open>\<open>processOperation\<close>: one remote call chosen by the operation's type; an error of the
  remote store is thrown. An unknown type is logged and nothing is thrown.\<close>

definition processOperation :: "Env \<Rightarrow> PendingOperation \<Rightarrow> App \<Rightarrow> (error + unit) \<times> App" where
  "processOperation env operation s =
     (case op_data operation of
        CREATE_PRESET d \<Rightarrow>
          (if replay_error env operation then Inl RemoteError else Inr (),
           s\<lparr>supabase := supabase s @ [Insert d]\<rparr>)
      | UPDATE_PRESET i updates \<Rightarrow>
          (if replay_error env operation then Inl RemoteError else Inr (),
           s\<lparr>supabase := supabase s @ [Update updates i (op_user_id operation)]\<rparr>)
      | DELETE_PRESET i \<Rightarrow>
          (if replay_error env operation then Inl RemoteError else Inr (),
           s\<lparr>supabase := supabase s @ [Delete i (op_user_id operation)]\<rparr>)
      | ADD_SPELL \<Rightarrow> (Inr (), s)
      | REMOVE_SPELL \<Rightarrow> (Inr (), s))"

text \<open>What \<open>processOperation\<close> does, told apart: the call it issues for an operation
  (none for an unknown type), and whether it throws.\<close>

definition issued :: "PendingOperation \<Rightarrow> RemoteCall list" where
  "issued operation =
     (case op_data operation of
        CREATE_PRESET d \<Rightarrow> [Insert d]
      | UPDATE_PRESET i updates \<Rightarrow> [Update updates i (op_user_id operation)]
      | DELETE_PRESET i \<Rightarrow> [Delete i (op_user_id operation)]
      | ADD_SPELL \<Rightarrow> []
      | REMOVE_SPELL \<Rightarrow> [])"

definition throws :: "Env \<Rightarrow> PendingOperation \<Rightarrow> bool" where
  "throws env operation = (issued operation \<noteq> [] \<and> replay_error env operation)"

text \<open>The \<open>for\<close> loop of \<open>syncPendingOperations\<close> with its two counters.\<close>

fun drain :: "Env \<Rightarrow> PendingOperation list \<Rightarrow> nat \<times> nat \<times> App \<Rightarrow> nat \<times> nat \<times> App" where
  "drain env [] acc = acc"
| "drain env (operation # rest) (successCount, failureCount, s) =
     (case processOperation env operation s of
        (Inl e, s1) \<Rightarrow> drain env rest (successCount, failureCount + 1, s1)
      | (Inr u, s1) \<Rightarrow>
          (case removePendingOperation (available env) (op_id operation) (cacheManager s1) of
             (Inl e, cm) \<Rightarrow>
               drain env rest (successCount, failureCount + 1, s1\<lparr>cacheManager := cm\<rparr>)
           | (Inr v, cm) \<Rightarrow>
               drain env rest (successCount + 1, failureCount, s1\<lparr>cacheManager := cm\<rparr>)))"

text \<open>The state the loop leaves when every removal succeeds: the operations that did not
  throw are gone from the store, one call per operation has been issued.\<close>

definition drained :: "Env \<Rightarrow> PendingOperation list \<Rightarrow> App \<Rightarrow> App" where
  "drained env pending s =
     s\<lparr>cacheManager := (cacheManager s)\<lparr>idb := (idb (cacheManager s))\<lparr>pending_operations :=
          filter (\<lambda>x. op_id x \<notin> op_id ` set (filter (\<lambda>x. \<not> throws env x) pending))
            (pending_operations (idb (cacheManager s)))\<rparr>\<rparr>,
       supabase := supabase s @ concat (map issued pending)\<rparr>"

text \<open>The \<open>if (successCount > 0)\<close> block.\<close>

definition record_sync :: "Env \<Rightarrow> nat \<Rightarrow> nat \<Rightarrow> App \<Rightarrow> (error + unit) \<times> App" where
  "record_sync env successCount failureCount s =
     (case setMetadata (available env) (now env) ''last_sync_time'' (now env) (cacheManager s) of
        (Inl e, cm) \<Rightarrow> (Inl e, s\<lparr>cacheManager := cm\<rparr>)
      | (Inr u, cm) \<Rightarrow>
          (Inr (),
           s\<lparr>cacheManager := cm,
             status := (status s)\<lparr>lastSyncTime := Some (now env),
                                  pendingOperations := failureCount\<rparr>,
             toasts := toasts s @ [Sincronizado successCount]\<rparr>))"

text \<open>
  \<open>syncPendingOperations\<close> is a \<open>useCallback\<close> over \<open>[user, status.isConnected]\<close>: its
  guard reads the status of the render that built the callback (\<open>rendered\<close>), while every
  \<open>setStatus(prev => ...)\<close> updates the current state. The outer \<open>catch\<close> answers \<open>false\<close>;
  the \<open>finally\<close> clears \<open>syncing\<close>.
\<close>

definition syncPendingOperations :: "Env \<Rightarrow> NetworkStatus \<Rightarrow> App \<Rightarrow> bool \<times> App" where
  "syncPendingOperations env rendered s =
     (case user env of
        None \<Rightarrow> (False, s)
      | Some uid \<Rightarrow>
          (if \<not> isConnected rendered then (False, s)
           else
             (let s1 = s\<lparr>status := (status s)\<lparr>syncing := True\<rparr>\<rparr>;
                  (r, s5) =
                    (case getPendingOperations (available env) uid (cacheManager s1) of
                       (Inl e, cm) \<Rightarrow>
                         (False, s1\<lparr>cacheManager := cm,
                                    toasts := toasts s1 @ [FalhaAoSincronizar]\<rparr>)
                     | (Inr pending, cm) \<Rightarrow>
                         (case drain env pending (0, 0, s1\<lparr>cacheManager := cm\<rparr>) of
                            (successCount, failureCount, s2) \<Rightarrow>
                              (case (if successCount > 0
                                     then record_sync env successCount failureCount s2
                                     else (Inr (), s2)) of
                                 (Inl e, s3) \<Rightarrow>
                                   (False, s3\<lparr>toasts := toasts s3 @ [FalhaAoSincronizar]\<rparr>)
                               | (Inr u, s3) \<Rightarrow>
                                   (failureCount = 0,
                                    if failureCount > 0
                                    then s3\<lparr>toasts :=
                                              toasts s3 @ [OperacoesFalharam failureCount]\<rparr>
                                    else s3))))
              in (r, s5\<lparr>status := (status s5)\<lparr>syncing := False\<rparr>\<rparr>))))"

text \<open>
  A pass is not one step: it suspends at every \<open>await\<close>, and nothing keeps a second pass
  (of the same hook after the next probe, or of another component that uses
  \<open>useNetworkStatus\<close>) from starting meanwhile. The two parts of one pass: up to the read
  of the queue, which the pass keeps as its own list, and the replay of that list with the
  report. The status is kept once here; in the program each user of the hook has its own.
\<close>

definition sync_read ::
  "Env \<Rightarrow> NetworkStatus \<Rightarrow> App \<Rightarrow> (error + PendingOperation list) option \<times> App" where
  "sync_read env rendered s =
     (case user env of
        None \<Rightarrow> (None, s)
      | Some uid \<Rightarrow>
          (if \<not> isConnected rendered then (None, s)
           else
             (let s1 = s\<lparr>status := (status s)\<lparr>syncing := True\<rparr>\<rparr>
              in case getPendingOperations (available env) uid (cacheManager s1) of
                   (r, cm) \<Rightarrow> (Some r, s1\<lparr>cacheManager := cm\<rparr>))))"

definition sync_replay :: "Env \<Rightarrow> error + PendingOperation list \<Rightarrow> App \<Rightarrow> bool \<times> App" where
  "sync_replay env r s =
     (let (ok, s5) =
            (case r of
               Inl e \<Rightarrow> (False, s\<lparr>toasts := toasts s @ [FalhaAoSincronizar]\<rparr>)
             | Inr pending \<Rightarrow>
                 (case drain env pending (0, 0, s) of
                    (successCount, failureCount, s2) \<Rightarrow>
                      (case (if successCount > 0
                             then record_sync env successCount failureCount s2
                             else (Inr (), s2)) of
                         (Inl e, s3) \<Rightarrow>
                           (False, s3\<lparr>toasts := toasts s3 @ [FalhaAoSincronizar]\<rparr>)
                       | (Inr u, s3) \<Rightarrow>
                           (failureCount = 0,
                            if failureCount > 0
                            then s3\<lparr>toasts := toasts s3 @ [OperacoesFalharam failureCount]\<rparr>
                            else s3))))
      in (ok, s5\<lparr>status := (status s5)\<lparr>syncing := False\<rparr>\<rparr>))"

text \<open>Two passes of which the second reads the queue before the first has replayed
  anything; the results are those of the first and of the second pass.\<close>

definition overlapping_passes :: "Env \<Rightarrow> NetworkStatus \<Rightarrow> App \<Rightarrow> (bool \<times> bool) \<times> App" where
  "overlapping_passes env rendered s =
     (case sync_read env rendered s of
        (None, s1) \<Rightarrow> ((False, False), s1)
      | (Some first, s1) \<Rightarrow>
          (case sync_read env rendered s1 of
             (None, s2) \<Rightarrow> ((fst (sync_replay env first s2), False), snd (sync_replay env first s2))
           | (Some second, s2) \<Rightarrow>
               (case sync_replay env first s2 of
                  (ok1, s3) \<Rightarrow>
                    (case sync_replay env second s3 of
                       (ok2, s4) \<Rightarrow> ((ok1, ok2), s4)))))"

text \<open>
  \<open>checkConnection\<close>, the body the effect runs at once and then every 30 seconds:
  \<open>connected\<close> is the answer of \<open>checkSupabaseConnection\<close>; \<open>status.pendingOperations\<close> is
  read from the render that built the effect.
\<close>

definition checkConnection :: "Env \<Rightarrow> bool \<Rightarrow> NetworkStatus \<Rightarrow> App \<Rightarrow> App" where
  "checkConnection env connected rendered s =
     (let s1 = s\<lparr>status := (status s)\<lparr>isConnected := connected\<rparr>\<rparr>
      in if connected then
           (let s2 = updatePendingCount env s1
            in if pendingOperations rendered > 0
               then snd (syncPendingOperations env rendered s2) else s2)
         else s1)"

text \<open>\<open>handleSync\<close> of Components/NetworkStatusIndicator.tsx, the manual trigger.\<close>

definition handleSync :: "Env \<Rightarrow> NetworkStatus \<Rightarrow> App \<Rightarrow> App" where
  "handleSync env rendered s =
     (if isConnected rendered \<and> pendingOperations rendered > 0 \<and> \<not> syncing rendered
      then snd (syncPendingOperations env rendered s) else s)"

subsection \<open>Runs of the hooks\<close>

datatype Action =
    CreatePreset string "string option"
  | UpdatePreset string PresetUpdates
  | DeletePreset string
  | AddSpellToPreset string "string option"
  | RemoveSpellFromPreset string "string option"
  | CreateDefaultOfflinePreset
  | SyncPendingOperations
  | CheckConnection bool
  | HandleSync

text \<open>One call on the current render.\<close>

fun perform :: "Env \<Rightarrow> Action \<Rightarrow> App \<Rightarrow> App" where
  "perform env (CreatePreset name description) s = snd (createPreset env name description s)"
| "perform env (UpdatePreset i updates) s = snd (updatePreset env i updates s)"
| "perform env (DeletePreset i) s = snd (deletePreset env i s)"
| "perform env (AddSpellToPreset spellId presetId) s =
     snd (addSpellToPreset env spellId presetId s)"
| "perform env (RemoveSpellFromPreset spellId presetId) s =
     snd (removeSpellFromPreset env spellId presetId s)"
| "perform env CreateDefaultOfflinePreset s = snd (createDefaultOfflinePreset env s)"
| "perform env SyncPendingOperations s = snd (syncPendingOperations env (status s) s)"
| "perform env (CheckConnection connected) s = checkConnection env connected (status s) s"
| "perform env HandleSync s = handleSync env (status s) s"

fun run :: "(Env \<times> Action) list \<Rightarrow> App \<Rightarrow> App" where
  "run [] s = s"
| "run ((env, a) # rest) s = run rest (perform env a s)"

fun targets_offline :: "OperationData \<Rightarrow> bool" where
  "targets_offline (UPDATE_PRESET i updates) = prefix ''offline_'' i"
| "targets_offline (DELETE_PRESET i) = prefix ''offline_'' i"
| "targets_offline d = False"

definition queue :: "App \<Rightarrow> PendingOperation list" where
  "queue s = pending_operations (idb (cacheManager s))"

fun call_targets_offline :: "RemoteCall \<Rightarrow> bool" where
  "call_targets_offline (Update updates i uid) = prefix ''offline_'' i"
| "call_targets_offline (Delete i uid) = prefix ''offline_'' i"
| "call_targets_offline (Insert d) = False"

text \<open>No queued update or delete, and no update or delete sent to the remote store, has a
  target id that starts with \<open>offline_\<close>.\<close>

definition offline_free :: "App \<Rightarrow> bool" where
  "offline_free s =
     (list_all (\<lambda>operation. \<not> targets_offline (op_data operation)) (queue s) \<and>
      list_all (\<lambda>c. \<not> call_targets_offline c) (supabase s))"

subsection \<open>Concrete states\<close>

definition empty_db :: IDBDatabase where
  "empty_db = \<lparr>spells = [], favorite_presets = [], pending_operations = [], metadata = []\<rparr>"

definition open_manager :: "IDBDatabase \<Rightarrow> CacheManager" where
  "open_manager d = \<lparr>db = Some GrimoireCache, initialized = True, idb = d\<rparr>"

definition fresh_manager :: "IDBDatabase \<Rightarrow> CacheManager" where
  "fresh_manager d = \<lparr>db = None, initialized = False, idb = d\<rparr>"

definition fireball :: Spell where
  "fireball = \<lparr>spell_id = ''s1'', spell_name = ''Fireball'', spell_level = 3\<rparr>"

definition shield :: Spell where
  "shield = \<lparr>spell_id = ''s2'', spell_name = ''Shield'', spell_level = 1\<rparr>"

text \<open>Fireball cached by \<open>cacheSpells\<close> at 1000, then Shield at 5000.\<close>

definition two_spells :: CacheManager where
  "two_spells =
     snd (cacheSpells True 5000 [shield]
            (snd (cacheSpells True 1000 [fireball] (open_manager empty_db))))"

definition no_ttl_row :: SpellRow where
  "no_ttl_row = \<lparr>data = shield, cached_at = 1000, ttl = None, row_id = ''s2''\<rparr>"

definition grimoire :: "string \<Rightarrow> string \<Rightarrow> string \<Rightarrow> FavoritePreset" where
  "grimoire i n uid =
     \<lparr>preset_id = i, preset_name = n, preset_description = None, preset_spell_ids = [],
      preset_user_id = uid, preset_created_at = ''2024-01-01T00:00:00.000Z'',
      preset_updated_at = ''2024-01-01T00:00:00.000Z''\<rparr>"

definition cached_abd :: CacheManager where
  "cached_abd =
     open_manager (empty_db\<lparr>favorite_presets :=
       [cachePreset 1 ''u'' (grimoire ''a'' ''A'' ''u''),
        cachePreset 1 ''u'' (grimoire ''b'' ''B'' ''u''),
        cachePreset 1 ''v'' (grimoire ''d'' ''D'' ''v'')]\<rparr>)"

text \<open>User u at time 1700000000000; the two flags are \<open>available\<close> and
  \<open>remote_error\<close>. No replay fails.\<close>

definition env_of :: "bool \<Rightarrow> bool \<Rightarrow> Env" where
  "env_of av failing =
     \<lparr>user = Some ''u'', available = av, now = 1700000000000,
      iso_now = ''2023-11-14T22:13:20.000Z'', random = ''0.5'', remote_error = failing,
      remote_row = grimoire ''n'' ''N'' ''u'', replay_error = (\<lambda>operation. False)\<rparr>"

text \<open>Presets A and B of user u on screen, B active; the flag is \<open>isConnected\<close>.\<close>

definition app_of :: "bool \<Rightarrow> CacheManager \<Rightarrow> App" where
  "app_of connected cm =
     \<lparr>presets = [grimoire ''a'' ''A'' ''u'', grimoire ''b'' ''B'' ''u''],
      activePresetId = Some ''b'', error_msg = None, cacheManager = cm,
      status = \<lparr>isOnline = True, isConnected = connected, pendingOperations = 0,
                lastSyncTime = None, syncing = False\<rparr>,
      supabase = [], toasts = []\<rparr>"

definition rename :: "string \<Rightarrow> PresetUpdates" where
  "rename n = \<lparr>upd_name = Some n, upd_description = None, upd_spell_ids = None\<rparr>"

text \<open>A queue of four operations in key order: three of user u (a create, a delete and
  an update, enqueued at ...100, ...300 and ...200), one of user v.\<close>

definition op_create :: PendingOperation where
  "op_create =
     \<lparr>op_id = ''CREATE_PRESET_1700000000100_0.3'',
      op_data = CREATE_PRESET \<lparr>new_name = ''N'', new_description = None, new_user_id = ''u'',
                               new_spell_ids = []\<rparr>,
      op_timestamp = 1700000000100, op_user_id = ''u''\<rparr>"

definition op_other :: PendingOperation where
  "op_other =
     \<lparr>op_id = ''DELETE_PRESET_1700000000150_0.9'', op_data = DELETE_PRESET ''d'',
      op_timestamp = 1700000000150, op_user_id = ''v''\<rparr>"

definition op_delete :: PendingOperation where
  "op_delete =
     \<lparr>op_id = ''DELETE_PRESET_1700000000300_0.1'', op_data = DELETE_PRESET ''b'',
      op_timestamp = 1700000000300, op_user_id = ''u''\<rparr>"

definition op_update :: PendingOperation where
  "op_update =
     \<lparr>op_id = ''UPDATE_PRESET_1700000000200_0.7'', op_data = UPDATE_PRESET ''a'' (rename ''A2''),
      op_timestamp = 1700000000200, op_user_id = ''u''\<rparr>"

definition queued :: "PendingOperation list \<Rightarrow> CacheManager" where
  "queued ops = open_manager (empty_db\<lparr>pending_operations := ops\<rparr>)"

text \<open>The remote store rejects the replay of the operation with the given id.\<close>

definition rejecting :: "string \<Rightarrow> Env" where
  "rejecting i = (env_of True False)\<lparr>replay_error := (\<lambda>operation. op_id operation = i)\<rparr>"

text \<open>User u, offline, renames preset a at ...100 and then creates preset N at ...200:
  the two calls of \<open>addPendingOperation\<close>, in that order, on an empty queue.\<close>

definition update_then_create :: CacheManager where
  "update_then_create =
     snd (addPendingOperation True 1700000000200 ''0.3'' 1700000000200
            (CREATE_PRESET \<lparr>new_name = ''N'', new_description = None, new_user_id = ''u'',
                             new_spell_ids = []\<rparr>) ''u''
            (snd (addPendingOperation True 1700000000100 ''0.5'' 1700000000100
                    (UPDATE_PRESET ''a'' (rename ''A2'')) ''u'' (queued []))))"

text \<open>A drain of the queue holding \<open>op_create\<close> is under way: \<open>syncing\<close> is set.\<close>

definition mid_drain :: App where
  "mid_drain =
     (app_of True (queued [op_create]))\<lparr>status :=
        \<lparr>isOnline = True, isConnected = True, pendingOperations = 1, lastSyncTime = None,
         syncing = True\<rparr>\<rparr>"

text \<open>A session of user u: a preset created, renamed under its offline id, preset b
  deleted, then the connection probe and a drain.\<close>

definition session :: "(Env \<times> Action) list" where
  "session =
     [(env_of True False, CreatePreset ''N'' None),
      (env_of True False, UpdatePreset ''offline_u_1700000000000'' (rename ''N2'')),
      (env_of True False, DeletePreset ''b''),
      (env_of True False, CheckConnection True),
      (env_of True False, SyncPendingOperations)]"

section \<open>Properties\<close>

subsection \<open>The cache manager once the database is open\<close>

lemma ensureInitialized_done: "initialized cm \<Longrightarrow> ensureInitialized av cm = Inr cm"
  by (simp add: ensureInitialized_def)

lemma getCachedSpells_open:
  "initialized cm \<Longrightarrow> db cm = Some h \<Longrightarrow>
   getCachedSpells av tm cm = (Inr (valid_data tm (spells (idb cm))), cm)"
  by (simp add: getCachedSpells_def ensureInitialized_done)

lemma valid_data_split:
  "valid_data tm (before @ entry # after) =
   valid_data tm before @ (if ttl_valid tm entry then [data entry] else []) @ valid_data tm after"
  by (simp add: valid_data_def)

subsection \<open>Object stores: put keeps the key order and replaces by key\<close>

lemma store_put_keys: "k ` set (store_put k r rows) = insert (k r) (k ` set rows)"
  by (induction rows) auto

lemma store_put_keyed: "keyed k rows \<Longrightarrow> keyed k (store_put k r rows)"
proof (induction rows)
  case Nil
  then show ?case by (simp add: keyed_def)
next
  case (Cons x xs)
  then have ih: "keyed k (store_put k r xs)" by (simp add: keyed_def)
  have keys: "k ` set (store_put k r xs) = insert (k r) (k ` set xs)" by (rule store_put_keys)
  from Cons.prems ih keys show ?case
    by (auto simp: keyed_def)
qed

lemma store_put_mset:
  "keyed k rows \<Longrightarrow> mset (store_put k r rows) = add_mset r (mset (filter (\<lambda>x. k x \<noteq> k r) rows))"
proof (induction rows)
  case Nil
  then show ?case by simp
next
  case (Cons x xs)
  then have ih: "mset (store_put k r xs) = add_mset r (mset (filter (\<lambda>x. k x \<noteq> k r) xs))"
    by (simp add: keyed_def)
  from Cons.prems have later: "\<forall>y\<in>set xs. k x < k y"
    by (auto simp: keyed_def less_le)
  show ?case
  proof (cases "k r < k x")
    case True
    with later have "\<forall>y\<in>set (x # xs). k y \<noteq> k r" by auto
    then have "filter (\<lambda>y. k y \<noteq> k r) (x # xs) = x # xs"
      by (simp only: filter_id_conv) 
    with True show ?thesis by simp
  next
    case False
    show ?thesis
    proof (cases "k r = k x")
      case True
      with later have "\<forall>y\<in>set xs. k y \<noteq> k r" by auto
      then have "filter (\<lambda>y. k y \<noteq> k r) xs = xs" by (simp only: filter_id_conv)
      with True show ?thesis by simp
    next
      case neq: False
      with False ih show ?thesis by simp
    qed
  qed
qed

lemma store_put_filter_other:
  "\<not> Q r \<Longrightarrow> \<forall>x\<in>set rows. Q x \<longrightarrow> k x \<noteq> k r \<Longrightarrow>
   filter Q (store_put k r rows) = filter Q rows"
  by (induction rows) auto

lemma store_put_subset: "set (store_put k r rows) \<subseteq> insert r (set rows)"
  by (induction rows) auto

subsection \<open>Presets in the cache\<close>

lemma setMetadata_open:
  "initialized cm \<Longrightarrow> db cm = Some h \<Longrightarrow>
   setMetadata av tm key v cm =
     (Inr (), cm\<lparr>idb := (idb cm)\<lparr>metadata :=
        store_put meta_key \<lparr>meta_key = key, meta_value = v, meta_updated_at = tm\<rparr>
          (metadata (idb cm))\<rparr>\<rparr>)"
  by (simp add: setMetadata_def ensureInitialized_done)

lemma put_presets_simps:
  "put_presets tm u rows [] = rows"
  "put_presets tm u rows (p # ps) = put_presets tm u (store_put prow_id (cachePreset tm u p) rows) ps"
  by (simp_all add: put_presets_def)

lemma cacheFavoritePresets_open:
  assumes "initialized cm" and "db cm = Some h"
  shows "cacheFavoritePresets av tm ps u cm =
     (Inr (), cm\<lparr>idb := (idb cm)\<lparr>
        favorite_presets :=
          put_presets tm u (filter (\<lambda>x. prow_user_id x \<noteq> u) (favorite_presets (idb cm))) ps,
        metadata :=
          store_put meta_key
            \<lparr>meta_key = ''presets_last_sync_'' @ u, meta_value = tm, meta_updated_at = tm\<rparr>
            (metadata (idb cm))\<rparr>\<rparr>)"
  using assms
  by (simp add: cacheFavoritePresets_def ensureInitialized_done clearUserPresets_def
      setMetadata_open Let_def)

lemma getCachedFavoritePresets_open:
  "initialized cm \<Longrightarrow> db cm = Some h \<Longrightarrow>
   getCachedFavoritePresets av u cm =
     (Inr (map data (filter (\<lambda>x. prow_user_id x = u) (favorite_presets (idb cm)))), cm)"
  by (simp add: getCachedFavoritePresets_def ensureInitialized_done)

lemma put_presets_keyed: "keyed prow_id rows \<Longrightarrow> keyed prow_id (put_presets tm u rows ps)"
  by (induction ps arbitrary: rows) (simp_all add: put_presets_simps store_put_keyed)

lemma put_presets_other_user:
  assumes "v \<noteq> u"
    and "\<forall>x\<in>set rows. prow_user_id x = v \<longrightarrow> prow_id x \<notin> preset_id ` set ps"
  shows "filter (\<lambda>x. prow_user_id x = v) (put_presets tm u rows ps) =
         filter (\<lambda>x. prow_user_id x = v) rows"
  using assms(2)
proof (induction ps arbitrary: rows)
  case Nil
  then show ?case by (simp add: put_presets_simps)
next
  case (Cons p ps)
  let ?r = "cachePreset tm u p"
  have r: "prow_user_id ?r = u" "prow_id ?r = preset_id p" by (simp_all add: cachePreset_def)
  have step: "filter (\<lambda>x. prow_user_id x = v) (store_put prow_id ?r rows) =
              filter (\<lambda>x. prow_user_id x = v) rows"
    using Cons.prems assms(1) r by (intro store_put_filter_other) auto
  have "\<forall>x\<in>set (store_put prow_id ?r rows). prow_user_id x = v \<longrightarrow> prow_id x \<notin> preset_id ` set ps"
    using Cons.prems assms(1) r store_put_subset [of prow_id ?r rows] by auto
  from Cons.IH [OF this] step show ?case by (simp add: put_presets_simps)
qed

lemma store_put_filter_mset:
  assumes "keyed k rows" and "Q r"
  shows "filter_mset Q (mset (store_put k r rows)) =
         add_mset r (filter_mset (\<lambda>x. k x \<noteq> k r \<and> Q x) (mset rows))"
  using assms(2) by (simp add: store_put_mset [OF assms(1)] filter_filter_mset)

lemma put_presets_mset:
  assumes "keyed prow_id rows" and "distinct (map preset_id ps)"
  shows "filter_mset (\<lambda>x. prow_user_id x = u) (mset (put_presets tm u rows ps)) =
         filter_mset (\<lambda>x. prow_user_id x = u \<and> prow_id x \<notin> preset_id ` set ps) (mset rows) +
         mset (map (cachePreset tm u) ps)"
  using assms
proof (induction ps arbitrary: rows)
  case Nil
  then show ?case by (simp add: put_presets_simps)
next
  case (Cons p ps)
  let ?r = "cachePreset tm u p"
  let ?Q = "\<lambda>x. prow_user_id x = u \<and> prow_id x \<notin> preset_id ` set ps"
  have r: "prow_user_id ?r = u" "prow_id ?r = preset_id p" by (simp_all add: cachePreset_def)
  have k: "keyed prow_id (store_put prow_id ?r rows)"
    using Cons.prems(1) by (rule store_put_keyed)
  have d: "distinct (map preset_id ps)" "preset_id p \<notin> preset_id ` set ps"
    using Cons.prems(2) by auto
  have q: "?Q ?r" using r d(2) by simp
  have same: "filter_mset (\<lambda>x. prow_id x \<noteq> prow_id ?r \<and> ?Q x) (mset rows) =
              filter_mset (\<lambda>x. prow_user_id x = u \<and> prow_id x \<notin> preset_id ` set (p # ps))
                (mset rows)"
    by (rule filter_mset_cong) (auto simp: r)
  have "filter_mset ?Q (mset (store_put prow_id ?r rows)) =
        add_mset ?r (filter_mset (\<lambda>x. prow_user_id x = u \<and> prow_id x \<notin> preset_id ` set (p # ps))
                       (mset rows))"
    using store_put_filter_mset [of prow_id rows ?Q ?r, OF Cons.prems(1) q] same by (simp only:)
  with Cons.IH [OF k d(1)] show ?case by (simp add: put_presets_simps)
qed

lemma put_presets_rows_of_user:
  assumes "keyed prow_id rows" and "distinct (map preset_id ps)"
    and "\<forall>x\<in>set rows. prow_user_id x \<noteq> u"
  shows "mset (filter (\<lambda>x. prow_user_id x = u) (put_presets tm u rows ps)) =
         mset (map (cachePreset tm u) ps)"
proof -
  have "filter_mset (\<lambda>x. prow_user_id x = u \<and> prow_id x \<notin> preset_id ` set ps) (mset rows) = {#}"
    using assms(3) by (auto simp: filter_mset_eq_conv)
  with put_presets_mset [OF assms(1,2), of u tm] show ?thesis by simp
qed

lemma keyed_filter: "keyed k rows \<Longrightarrow> keyed k (filter Q rows)"
  by (simp add: keyed_def sorted_filter distinct_map_filter)

subsection \<open>When the database cannot be opened\<close>

text \<open>
  C9 does not hold of the code. With a manager that is not initialized and an
  \<open>indexedDB.open\<close> that fails, \<open>ensureInitialized\<close> raises and every operation raises with
  it: no read answers the empty result and no write returns quietly. The guard
  \<open>if (!this.db) return\<close> comes after the \<open>await\<close> and is not reached. The hooks await
  \<open>addPendingOperation\<close> outside any \<open>try\<close>, so the offline \<open>createPreset\<close>,
  \<open>updatePreset\<close> and \<open>deletePreset\<close> of user u raise too.
\<close>

theorem storage_unavailable_raises:
  "fst (getCachedSpells False tm (fresh_manager d)) = Inl StorageUnavailable \<and>
   fst (cacheSpells False tm sps (fresh_manager d)) = Inl StorageUnavailable \<and>
   fst (getCachedFavoritePresets False u (fresh_manager d)) = Inl StorageUnavailable \<and>
   fst (cacheFavoritePresets False tm ps u (fresh_manager d)) = Inl StorageUnavailable \<and>
   fst (addPendingOperation False tm rnd tm' x u (fresh_manager d)) = Inl StorageUnavailable \<and>
   fst (getPendingOperations False u (fresh_manager d)) = Inl StorageUnavailable \<and>
   fst (removePendingOperation False i (fresh_manager d)) = Inl StorageUnavailable \<and>
   fst (setMetadata False tm key v (fresh_manager d)) = Inl StorageUnavailable \<and>
   fst (createPreset (env_of False False) ''N'' None (app_of False (fresh_manager d))) =
     Inl StorageUnavailable \<and>
   fst (updatePreset (env_of False False) ''a'' (rename ''A2'') (app_of False (fresh_manager d))) =
     Inl StorageUnavailable \<and>
   fst (deletePreset (env_of False False) ''a'' (app_of False (fresh_manager d))) =
     Inl StorageUnavailable"
  by (simp add: getCachedSpells_def cacheSpells_def getCachedFavoritePresets_def
      cacheFavoritePresets_def addPendingOperation_def getPendingOperations_def
      removePendingOperation_def setMetadata_def ensureInitialized_def initialize_def
      fresh_manager_def createPreset_def updatePreset_def deletePreset_def enqueue_def
      cache_presets_unawaited_def env_of_def app_of_def Let_def)

subsection \<open>What the hooks leave alone\<close>

lemma ensureInitialized_cases:
  "ensureInitialized av cm = Inl StorageUnavailable \<or>
   (\<exists>cm1. ensureInitialized av cm = Inr cm1 \<and> idb cm1 = idb cm \<and> initialized cm1)"
  by (simp add: ensureInitialized_def initialize_def)

lemma cacheFavoritePresets_queue:
  "pending_operations (idb (snd (cacheFavoritePresets av tm ps u cm))) = pending_operations (idb cm)"
  using ensureInitialized_cases [of av cm]
  by (auto simp: cacheFavoritePresets_def clearUserPresets_def setMetadata_def Let_def
      ensureInitialized_done split: sum.splits)

lemma cacheFavoritePresets_keeps_open:
  "initialized cm \<Longrightarrow> db cm = Some h \<Longrightarrow>
   initialized (snd (cacheFavoritePresets av tm ps u cm)) \<and>
   db (snd (cacheFavoritePresets av tm ps u cm)) = Some h"
  by (simp add: cacheFavoritePresets_open)

lemma cache_presets_unawaited_frame:
  "presets (cache_presets_unawaited env ps u s) = presets s"
  "activePresetId (cache_presets_unawaited env ps u s) = activePresetId s"
  "supabase (cache_presets_unawaited env ps u s) = supabase s"
  "status (cache_presets_unawaited env ps u s) = status s"
  "toasts (cache_presets_unawaited env ps u s) = toasts s"
  "queue (cache_presets_unawaited env ps u s) = queue s"
  by (simp_all add: cache_presets_unawaited_def queue_def cacheFavoritePresets_queue)

lemma getPendingOperations_idb:
  "idb (snd (getPendingOperations av u cm)) = idb cm"
  using ensureInitialized_cases [of av cm]
  by (auto simp: getPendingOperations_def split: sum.splits)

lemma updatePendingCount_frame:
  "presets (updatePendingCount env s) = presets s"
  "activePresetId (updatePendingCount env s) = activePresetId s"
  "supabase (updatePendingCount env s) = supabase s"
  "toasts (updatePendingCount env s) = toasts s"
  "queue (updatePendingCount env s) = queue s"
proof -
  obtain r cm where g: "getPendingOperations (available env) (the (user env)) (cacheManager s) = (r, cm)"
    by (cases "getPendingOperations (available env) (the (user env)) (cacheManager s)")
  then have "idb cm = idb (cacheManager s)"
    using getPendingOperations_idb [of "available env" "the (user env)" "cacheManager s"] by simp
  with g show "presets (updatePendingCount env s) = presets s"
    "activePresetId (updatePendingCount env s) = activePresetId s"
    "supabase (updatePendingCount env s) = supabase s"
    "toasts (updatePendingCount env s) = toasts s"
    "queue (updatePendingCount env s) = queue s"
    by (auto simp: updatePendingCount_def queue_def split: option.splits sum.splits)
qed

lemma enqueue_frame:
  "presets (snd (enqueue env d u s)) = presets s"
  "activePresetId (snd (enqueue env d u s)) = activePresetId s"
  "supabase (snd (enqueue env d u s)) = supabase s"
  "toasts (snd (enqueue env d u s)) = toasts s"
  "status (snd (enqueue env d u s)) = status s"
  by (simp_all add: enqueue_def split: prod.splits)

lemma enqueue_result:
  assumes "enqueue env d u s = (r, s')"
  shows "presets s' = presets s" and "activePresetId s' = activePresetId s"
    and "supabase s' = supabase s" and "toasts s' = toasts s" and "status s' = status s"
  using enqueue_frame [of env d u s] assms by simp_all

subsection \<open>Direct mutations while connected\<close>

text \<open>
  C8. A user is signed in, the hook is connected and the remote call answers with an error
  (for \<open>updatePreset\<close> and \<open>deletePreset\<close> the id does not start with \<open>offline_\<close>, so
  the connected branch is the one taken). Then \<open>createPreset\<close> returns \<open>null\<close>,
  \<open>updatePreset\<close> and \<open>deletePreset\<close> return \<open>false\<close>, the one remote call was issued,
  and the preset list and the active preset id are what they were.
\<close>

theorem online_failure_keeps_local_state:
  assumes "user env = Some uid" and "isConnected (status s)" and "remote_error env"
    and "\<not> prefix ''offline_'' i"
  shows "fst (createPreset env name description s) = Inr None \<and>
         presets (snd (createPreset env name description s)) = presets s \<and>
         activePresetId (snd (createPreset env name description s)) = activePresetId s \<and>
         supabase (snd (createPreset env name description s)) =
           supabase s @ [Insert \<lparr>new_name = name, new_description = description,
                                 new_user_id = uid, new_spell_ids = []\<rparr>] \<and>
         fst (updatePreset env i updates s) = Inr False \<and>
         presets (snd (updatePreset env i updates s)) = presets s \<and>
         activePresetId (snd (updatePreset env i updates s)) = activePresetId s \<and>
         supabase (snd (updatePreset env i updates s)) = supabase s @ [Update updates i uid] \<and>
         fst (deletePreset env i s) = Inr False \<and>
         presets (snd (deletePreset env i s)) = presets s \<and>
         activePresetId (snd (deletePreset env i s)) = activePresetId s \<and>
         supabase (snd (deletePreset env i s)) = supabase s @ [Delete i uid]"
  using assms by (simp add: createPreset_def updatePreset_def deletePreset_def Let_def)

text \<open>User u connected with presets A and B, the remote store failing.\<close>

theorem online_failure_keeps_local_state_witness:
  "fst (createPreset (env_of True True) ''N'' None (app_of True cached_abd)) = Inr None \<and>
   presets (snd (createPreset (env_of True True) ''N'' None (app_of True cached_abd))) =
     presets (app_of True cached_abd) \<and>
   activePresetId (snd (createPreset (env_of True True) ''N'' None (app_of True cached_abd))) =
     activePresetId (app_of True cached_abd) \<and>
   supabase (snd (createPreset (env_of True True) ''N'' None (app_of True cached_abd))) =
     supabase (app_of True cached_abd) @
       [Insert \<lparr>new_name = ''N'', new_description = None, new_user_id = ''u'',
                 new_spell_ids = []\<rparr>] \<and>
   fst (updatePreset (env_of True True) ''a'' (rename ''A2'') (app_of True cached_abd)) =
     Inr False \<and>
   presets (snd (updatePreset (env_of True True) ''a'' (rename ''A2'') (app_of True cached_abd))) =
     presets (app_of True cached_abd) \<and>
   activePresetId
     (snd (updatePreset (env_of True True) ''a'' (rename ''A2'') (app_of True cached_abd))) =
     activePresetId (app_of True cached_abd) \<and>
   supabase (snd (updatePreset (env_of True True) ''a'' (rename ''A2'') (app_of True cached_abd))) =
     supabase (app_of True cached_abd) @ [Update (rename ''A2'') ''a'' ''u''] \<and>
   fst (deletePreset (env_of True True) ''a'' (app_of True cached_abd)) = Inr False \<and>
   presets (snd (deletePreset (env_of True True) ''a'' (app_of True cached_abd))) =
     presets (app_of True cached_abd) \<and>
   activePresetId (snd (deletePreset (env_of True True) ''a'' (app_of True cached_abd))) =
     activePresetId (app_of True cached_abd) \<and>
   supabase (snd (deletePreset (env_of True True) ''a'' (app_of True cached_abd))) =
     supabase (app_of True cached_abd) @ [Delete ''a'' ''u'']"
proof -
  have "user (env_of True True) = Some ''u''" and "isConnected (status (app_of True cached_abd))"
    and "remote_error (env_of True True)" and "\<not> prefix ''offline_'' ''a''"
    by (simp_all add: env_of_def app_of_def)
  then show ?thesis by (rule online_failure_keeps_local_state)
qed

subsection \<open>Updating a preset that is not in the list\<close>

lemma store_put_member: "r \<in> set (store_put k r rows)"
  by (induction rows) auto

lemma addPendingOperation_open:
  "initialized cm \<Longrightarrow> db cm = Some h \<Longrightarrow>
   addPendingOperation av t1 rnd t2 d u cm =
     (Inr (type_name d @ ''_'' @ render_int t1 @ ''_'' @ rnd),
      cm\<lparr>idb := (idb cm)\<lparr>pending_operations :=
        store_put op_id
          \<lparr>op_id = type_name d @ ''_'' @ render_int t1 @ ''_'' @ rnd, op_data = d,
           op_timestamp = t2, op_user_id = u\<rparr>
          (pending_operations (idb cm))\<rparr>\<rparr>)"
  by (simp add: addPendingOperation_def ensureInitialized_done Let_def)

lemma unchanged_map: "i \<notin> f ` set xs \<Longrightarrow> map (\<lambda>x. if f x = i then g x else x) xs = xs"
  by (induction xs) auto

text \<open>
  C10. A user is signed in, \<open>updatePreset\<close> takes its offline branch (not connected, or
  the id starts with \<open>offline_\<close>) and no preset of the list has the id. The preset list
  is left as it was. If the id starts with \<open>offline_\<close> the call returns \<open>true\<close> and the
  queue is unchanged. If it does not, and the database is open, the call returns \<open>true\<close>
  and an \<open>UPDATE_PRESET\<close> operation for the id has been put in the queue.
\<close>

theorem updatePreset_offline_unknown_id:
  assumes "user env = Some uid"
    and "\<not> isConnected (status s) \<or> prefix ''offline_'' i"
    and "i \<notin> preset_id ` set (presets s)"
  shows "presets (snd (updatePreset env i updates s)) = presets s \<and>
         (prefix ''offline_'' i \<longrightarrow>
            fst (updatePreset env i updates s) = Inr True \<and>
            queue (snd (updatePreset env i updates s)) = queue s) \<and>
         (\<not> prefix ''offline_'' i \<and> initialized (cacheManager s) \<and>
          db (cacheManager s) = Some GrimoireCache \<longrightarrow>
            fst (updatePreset env i updates s) = Inr True \<and>
            queue (snd (updatePreset env i updates s)) =
              store_put op_id
                \<lparr>op_id = ''UPDATE_PRESET_'' @ render_int (now env) @ ''_'' @ random env,
                 op_data = UPDATE_PRESET i updates, op_timestamp = now env,
                 op_user_id = uid\<rparr>
                (queue s) \<and>
            \<lparr>op_id = ''UPDATE_PRESET_'' @ render_int (now env) @ ''_'' @ random env,
             op_data = UPDATE_PRESET i updates, op_timestamp = now env,
             op_user_id = uid\<rparr> \<in> set (queue (snd (updatePreset env i updates s))))"
proof -
  let ?ps = "map (\<lambda>preset. if preset_id preset = i
                 then (apply_updates preset updates)\<lparr>preset_updated_at := iso_now env\<rparr>
                 else preset) (presets s)"
  let ?s2 = "cache_presets_unawaited env ?ps uid (s\<lparr>presets := ?ps\<rparr>)"
  have same: "?ps = presets s" using assms(3) by (rule unchanged_map)
  have branch: "\<not> (isConnected (status s) \<and> \<not> prefix ''offline_'' i)"
    using assms(2) by auto
  have off: "prefix ''offline_'' i \<Longrightarrow> updatePreset env i updates s = (Inr True, ?s2)"
    using assms(1) by (simp add: updatePreset_def Let_def)
  have on: "updatePreset env i updates s =
              (Inr True, updatePendingCount env
                 (?s2\<lparr>cacheManager := (cacheManager ?s2)\<lparr>idb := (idb (cacheManager ?s2))
                    \<lparr>pending_operations :=
                       store_put op_id
                         \<lparr>op_id = ''UPDATE_PRESET_'' @ render_int (now env) @ ''_'' @ random env,
                          op_data = UPDATE_PRESET i updates, op_timestamp = now env,
                          op_user_id = uid\<rparr>
                         (queue ?s2)\<rparr>\<rparr>\<rparr>))"
    if "\<not> prefix ''offline_'' i" "initialized (cacheManager s)"
       "db (cacheManager s) = Some GrimoireCache"
  proof -
    have "initialized (cacheManager ?s2) \<and> db (cacheManager ?s2) = Some GrimoireCache"
      using that(2,3) by (simp add: cache_presets_unawaited_def cacheFavoritePresets_keeps_open)
    then show ?thesis
      using assms(1) branch that(1)
      by (simp add: updatePreset_def Let_def enqueue_def addPendingOperation_open queue_def)
  qed
  have p: "presets (snd (updatePreset env i updates s)) = presets s"
    using assms(1) branch same
    by (cases "prefix ''offline_'' i")
       (auto simp: updatePreset_def Let_def cache_presets_unawaited_frame
          updatePendingCount_frame split: prod.splits sum.splits dest!: enqueue_result(1))
  have "queue ?s2 = queue (s\<lparr>presets := ?ps\<rparr>)"
    by (simp only: cache_presets_unawaited_frame)
  also have "\<dots> = queue s"
    by (simp add: queue_def)
  finally have q2: "queue ?s2 = queue s" .
  have upd: "queue (x\<lparr>cacheManager := (cacheManager x)\<lparr>idb := (idb (cacheManager x))
               \<lparr>pending_operations := q\<rparr>\<rparr>\<rparr>) = q" for x :: App and q
    by (simp add: queue_def)
  show ?thesis
  proof (intro conjI impI)
    show "presets (snd (updatePreset env i updates s)) = presets s" by (rule p)
  next
    assume "prefix ''offline_'' i"
    from off [OF this] show "fst (updatePreset env i updates s) = Inr True" by simp
  next
    assume "prefix ''offline_'' i"
    from off [OF this] q2 show "queue (snd (updatePreset env i updates s)) = queue s" by simp
  next
    assume a: "\<not> prefix ''offline_'' i \<and> initialized (cacheManager s) \<and>
               db (cacheManager s) = Some GrimoireCache"
    then have o: "updatePreset env i updates s = (Inr True, updatePendingCount env
                 (?s2\<lparr>cacheManager := (cacheManager ?s2)\<lparr>idb := (idb (cacheManager ?s2))
                    \<lparr>pending_operations :=
                       store_put op_id
                         \<lparr>op_id = ''UPDATE_PRESET_'' @ render_int (now env) @ ''_'' @ random env,
                          op_data = UPDATE_PRESET i updates, op_timestamp = now env,
                          op_user_id = uid\<rparr>
                         (queue ?s2)\<rparr>\<rparr>\<rparr>))"
      using on by blast
    show "fst (updatePreset env i updates s) = Inr True" by (simp only: o fst_conv)
    show q: "queue (snd (updatePreset env i updates s)) =
            store_put op_id
              \<lparr>op_id = ''UPDATE_PRESET_'' @ render_int (now env) @ ''_'' @ random env,
               op_data = UPDATE_PRESET i updates, op_timestamp = now env,
               op_user_id = uid\<rparr>
              (queue s)"
      by (simp only: o snd_conv updatePendingCount_frame upd q2)
    show "\<lparr>op_id = ''UPDATE_PRESET_'' @ render_int (now env) @ ''_'' @ random env,
           op_data = UPDATE_PRESET i updates, op_timestamp = now env,
           op_user_id = uid\<rparr> \<in> set (queue (snd (updatePreset env i updates s)))"
      by (simp only: q store_put_member)
  qed
qed

text \<open>User u updates the unknown id zzz while offline, and the unknown id offline_u_1
  while connected.\<close>

theorem updatePreset_offline_unknown_id_witness:
  "presets (snd (updatePreset (env_of True False) ''zzz'' (rename ''Z'') (app_of False cached_abd))) =
     [grimoire ''a'' ''A'' ''u'', grimoire ''b'' ''B'' ''u''] \<and>
   fst (updatePreset (env_of True False) ''zzz'' (rename ''Z'') (app_of False cached_abd)) =
     Inr True \<and>
   queue (snd (updatePreset (env_of True False) ''zzz'' (rename ''Z'') (app_of False cached_abd))) =
     [\<lparr>op_id = ''UPDATE_PRESET_1700000000000_0.5'',
       op_data = UPDATE_PRESET ''zzz'' (rename ''Z''), op_timestamp = 1700000000000,
       op_user_id = ''u''\<rparr>] \<and>
   presets (snd (updatePreset (env_of True False) ''offline_u_1'' (rename ''Z'')
                  (app_of True cached_abd))) =
     [grimoire ''a'' ''A'' ''u'', grimoire ''b'' ''B'' ''u''] \<and>
   fst (updatePreset (env_of True False) ''offline_u_1'' (rename ''Z'') (app_of True cached_abd)) =
     Inr True \<and>
   queue (snd (updatePreset (env_of True False) ''offline_u_1'' (rename ''Z'')
                 (app_of True cached_abd))) = []"
proof -
  have u: "user (env_of True False) = Some ''u''" by (simp add: env_of_def)
  have off: "\<not> isConnected (status (app_of False cached_abd)) \<or> prefix ''offline_'' ''zzz''"
    by (simp add: app_of_def)
  have pre: "\<not> isConnected (status (app_of True cached_abd)) \<or> prefix ''offline_'' ''offline_u_1''"
    by simp
  have ps: "presets (app_of c cached_abd) = [grimoire ''a'' ''A'' ''u'', grimoire ''b'' ''B'' ''u'']"
    for c by (simp add: app_of_def)
  have m1: "''zzz'' \<notin> preset_id ` set (presets (app_of False cached_abd))"
    and m2: "''offline_u_1'' \<notin> preset_id ` set (presets (app_of True cached_abd))"
    by (simp_all add: ps grimoire_def)
  have facts: "\<not> prefix ''offline_'' ''zzz''" "prefix ''offline_'' ''offline_u_1''"
    "initialized (cacheManager (app_of False cached_abd))"
    "db (cacheManager (app_of False cached_abd)) = Some GrimoireCache"
    "queue (app_of False cached_abd) = []" "queue (app_of True cached_abd) = []"
    "now (env_of True False) = 1700000000000" "random (env_of True False) = ''0.5''"
    "render_int 1700000000000 = ''1700000000000''"
    by (simp_all add: app_of_def cached_abd_def open_manager_def queue_def empty_db_def env_of_def
        render_int_def digit_def)
  from updatePreset_offline_unknown_id [OF u off m1, of "rename ''Z''"]
       updatePreset_offline_unknown_id [OF u pre m2, of "rename ''Z''"]
  show ?thesis
    using facts ps by simp
qed

subsection \<open>One pass over the queue\<close>

lemma processOperation_eq:
  "processOperation env operation s =
     (if throws env operation then Inl RemoteError else Inr (),
      s\<lparr>supabase := supabase s @ issued operation\<rparr>)"
  by (cases "op_data operation") (simp_all add: processOperation_def throws_def issued_def)

lemma removePendingOperation_open:
  "initialized cm \<Longrightarrow> db cm = Some h \<Longrightarrow>
   removePendingOperation av i cm =
     (Inr (), cm\<lparr>idb := (idb cm)\<lparr>pending_operations :=
        filter (\<lambda>x. op_id x \<noteq> i) (pending_operations (idb cm))\<rparr>\<rparr>)"
  by (simp add: removePendingOperation_def ensureInitialized_done store_delete_def)

lemma getPendingOperations_open:
  "initialized cm \<Longrightarrow> db cm = Some h \<Longrightarrow>
   getPendingOperations av u cm =
     (Inr (filter (\<lambda>x. op_user_id x = u) (pending_operations (idb cm))), cm)"
  by (simp add: getPendingOperations_def ensureInitialized_done)

lemma drain_effect:
  "initialized (cacheManager s) \<Longrightarrow> db (cacheManager s) = Some h \<Longrightarrow>
   drain env pending (sc, fc, s) =
     (sc + length (filter (\<lambda>x. \<not> throws env x) pending),
      fc + length (filter (throws env) pending),
      drained env pending s)"
proof (induction pending arbitrary: sc fc s)
  case Nil
  then show ?case by (simp add: drained_def)
next
  case (Cons operation rest)
  show ?case
  proof (cases "throws env operation")
    case True
    let ?s1 = "s\<lparr>supabase := supabase s @ issued operation\<rparr>"
    have o: "initialized (cacheManager ?s1)" "db (cacheManager ?s1) = Some h"
      using Cons.prems by simp_all
    have "drained env rest ?s1 = drained env (operation # rest) s"
      using True by (simp add: drained_def)
    with True Cons.IH [OF o] show ?thesis
      by (simp add: processOperation_eq)
  next
    case False
    let ?s1 = "s\<lparr>supabase := supabase s @ issued operation\<rparr>"
    let ?s2 = "?s1\<lparr>cacheManager := (cacheManager ?s1)\<lparr>idb := (idb (cacheManager ?s1))
                 \<lparr>pending_operations :=
                    filter (\<lambda>x. op_id x \<noteq> op_id operation)
                      (pending_operations (idb (cacheManager ?s1)))\<rparr>\<rparr>\<rparr>"
    have o: "initialized (cacheManager ?s2)" "db (cacheManager ?s2) = Some h"
      using Cons.prems by simp_all
    have step: "removePendingOperation (available env) (op_id operation) (cacheManager ?s1) =
            (Inr (), cacheManager ?s2)"
      using Cons.prems by (simp add: removePendingOperation_open)
    have "filter (\<lambda>x. op_id x \<notin> op_id ` set (filter (\<lambda>x. \<not> throws env x) rest))
            (filter (\<lambda>x. op_id x \<noteq> op_id operation) q) =
          filter (\<lambda>x. op_id x \<notin> op_id ` set (filter (\<lambda>x. \<not> throws env x) (operation # rest))) q"
      for q using False by (auto intro: filter_cong)
    then have "drained env rest ?s2 = drained env (operation # rest) s"
      using False by (simp add: drained_def)
    with False Cons.IH [OF o] step show ?thesis
      by (simp add: processOperation_eq)
  qed
qed

lemma drained_open:
  "initialized (cacheManager (drained env pending s)) = initialized (cacheManager s)"
  "db (cacheManager (drained env pending s)) = db (cacheManager s)"
  by (simp_all add: drained_def)

lemma sync_effect:
  assumes "user env = Some u" and "isConnected rendered"
    and "initialized (cacheManager s)" and "db (cacheManager s) = Some h"
  defines "pending \<equiv> filter (\<lambda>x. op_user_id x = u) (queue s)"
  defines "ok \<equiv> filter (\<lambda>x. \<not> throws env x) pending"
  defines "bad \<equiv> filter (throws env) pending"
  shows "fst (syncPendingOperations env rendered s) = (bad = [])"
    and "queue (snd (syncPendingOperations env rendered s)) =
           filter (\<lambda>x. op_id x \<notin> op_id ` set ok) (queue s)"
    and "supabase (snd (syncPendingOperations env rendered s)) =
           supabase s @ concat (map issued pending)"
    and "toasts (snd (syncPendingOperations env rendered s)) =
           toasts s @ (if ok = [] then [] else [Sincronizado (length ok)]) @
           (if bad = [] then [] else [OperacoesFalharam (length bad)])"
    and "syncing (status (snd (syncPendingOperations env rendered s))) = False"
    and "initialized (cacheManager (snd (syncPendingOperations env rendered s)))"
    and "db (cacheManager (snd (syncPendingOperations env rendered s))) = Some h"
proof -
  note defs = syncPendingOperations_def Let_def getPendingOperations_open [where h = h]
    drain_effect [where h = h] record_sync_def setMetadata_open [where h = h] drained_def
    queue_def pending_def ok_def bad_def
  show "fst (syncPendingOperations env rendered s) = (bad = [])"
    using assms(1-4) by (simp add: defs)
  show "queue (snd (syncPendingOperations env rendered s)) =
           filter (\<lambda>x. op_id x \<notin> op_id ` set ok) (queue s)"
    using assms(1-4) by (simp add: defs)
  show "supabase (snd (syncPendingOperations env rendered s)) =
           supabase s @ concat (map issued pending)"
    using assms(1-4) by (simp add: defs)
  show "toasts (snd (syncPendingOperations env rendered s)) =
           toasts s @ (if ok = [] then [] else [Sincronizado (length ok)]) @
           (if bad = [] then [] else [OperacoesFalharam (length bad)])"
    using assms(1-4) by (simp add: defs)
  show "syncing (status (snd (syncPendingOperations env rendered s))) = False"
    using assms(1-4) by (simp add: defs)
  show "initialized (cacheManager (snd (syncPendingOperations env rendered s)))"
    using assms(1-4) by (simp add: defs)
  show "db (cacheManager (snd (syncPendingOperations env rendered s))) = Some h"
    using assms(1-4) by (simp add: defs)
qed

lemma keyed_removed:
  assumes "keyed k rows"
  shows "filter (\<lambda>x. k x \<notin> k ` set (filter P rows)) rows = filter (\<lambda>x. \<not> P x) rows"
proof (rule filter_cong [OF refl])
  fix x assume x: "x \<in> set rows"
  have inj: "inj_on k (set rows)"
    using assms by (simp add: keyed_def distinct_map)
  have "k x \<in> k ` set (filter P rows) \<longleftrightarrow> P x"
  proof
    assume "k x \<in> k ` set (filter P rows)"
    then obtain y where y: "y \<in> set rows" "P y" "k y = k x" by auto
    with inj x have "y = x" by (auto dest: inj_onD)
    with y show "P x" by simp
  next
    assume "P x" with x show "k x \<in> k ` set (filter P rows)" by auto
  qed
  then show "(k x \<notin> k ` set (filter P rows)) = (\<not> P x)" by simp
qed

text \<open>
  A pass that runs alone. A user is signed in, the callback was built on a connected
  render, the database is open and the queue holds one row per id. After one pass of
  \<open>syncPendingOperations\<close> over the operations \<open>pending\<close> of the user, with no other pass
  under way: the queue keeps, in their order, the operations of other users and those of
  the user whose replay threw, and has lost the others; reading the queue for the user
  gives the operations that threw; one remote call per pending operation was issued, in the
  order of the read, a throw stopping nothing; the result is \<open>true\<close> exactly when nothing
  threw; when something threw, the last toast carries the number of operations that threw;
  and a pass that follows replays the operations that threw and none of those removed.
\<close>

lemma drain_alone:
  assumes "user env = Some u" and "isConnected rendered"
    and "initialized (cacheManager s)" and "db (cacheManager s) = Some h"
    and "keyed op_id (queue s)"
    and "user env2 = Some u" and "isConnected rendered2"
  defines "pending \<equiv> filter (\<lambda>x. op_user_id x = u) (queue s)"
  defines "after \<equiv> snd (syncPendingOperations env rendered s)"
  shows "queue after = filter (\<lambda>x. op_user_id x \<noteq> u \<or> throws env x) (queue s) \<and>
         fst (getPendingOperations (available env2) u (cacheManager after)) =
           Inr (filter (throws env) pending) \<and>
         supabase after = supabase s @ concat (map issued pending) \<and>
         fst (syncPendingOperations env rendered s) = (filter (throws env) pending = []) \<and>
         (filter (throws env) pending \<noteq> [] \<longrightarrow>
            last (toasts after) = OperacoesFalharam (length (filter (throws env) pending))) \<and>
         supabase (snd (syncPendingOperations env2 rendered2 after)) =
           supabase after @ concat (map issued (filter (throws env) pending))"
proof -
  note e = sync_effect [OF assms(1-4), folded pending_def after_def]
  have "filter (\<lambda>x. op_user_id x = u \<and> \<not> throws env x) (queue s) =
        filter (\<lambda>x. \<not> throws env x) pending"
    by (simp add: pending_def conj_commute)
  then have "queue after =
        filter (\<lambda>x. op_id x \<notin> op_id ` set (filter (\<lambda>x. op_user_id x = u \<and> \<not> throws env x) (queue s)))
          (queue s)"
    using e(2) by simp
  also have "\<dots> = filter (\<lambda>x. \<not> (op_user_id x = u \<and> \<not> throws env x)) (queue s)"
    using assms(5) by (rule keyed_removed)
  finally have q: "queue after = filter (\<lambda>x. op_user_id x \<noteq> u \<or> throws env x) (queue s)"
    by simp
  have left: "filter (\<lambda>x. op_user_id x = u) (queue after) = filter (throws env) pending"
    by (auto simp: q pending_def intro: filter_cong)
  have g: "fst (getPendingOperations (available env2) u (cacheManager after)) =
           Inr (filter (throws env) pending)"
    using e(6,7) left by (simp add: getPendingOperations_open queue_def)
  have again: "supabase (snd (syncPendingOperations env2 rendered2 after)) =
           supabase after @ concat (map issued (filter (throws env) pending))"
    using sync_effect(3) [OF assms(6,7) e(6,7)] left by simp
  have t: "last (toasts after) = OperacoesFalharam (length (filter (throws env) pending))"
    if "filter (throws env) pending \<noteq> []"
    using that by (simp add: e(4))
  from q g e(3) e(1) t again show ?thesis by simp
qed

text \<open>The queue of four operations; the remote store rejects the update of user u. A
  second pass follows, in which nothing is rejected.\<close>

lemma drain_alone_example:
  "queue (snd (syncPendingOperations (rejecting ''UPDATE_PRESET_1700000000200_0.7'')
          (status (app_of True (queued [op_create, op_other, op_delete, op_update])))
          (app_of True (queued [op_create, op_other, op_delete, op_update])))) =
     [op_other, op_update] \<and>
   fst (getPendingOperations True ''u''
         (cacheManager (snd (syncPendingOperations (rejecting ''UPDATE_PRESET_1700000000200_0.7'')
            (status (app_of True (queued [op_create, op_other, op_delete, op_update])))
            (app_of True (queued [op_create, op_other, op_delete, op_update])))))) =
     Inr [op_update] \<and>
   supabase (snd (syncPendingOperations (rejecting ''UPDATE_PRESET_1700000000200_0.7'')
          (status (app_of True (queued [op_create, op_other, op_delete, op_update])))
          (app_of True (queued [op_create, op_other, op_delete, op_update])))) =
     [Insert \<lparr>new_name = ''N'', new_description = None, new_user_id = ''u'',
              new_spell_ids = []\<rparr>,
      Delete ''b'' ''u'', Update (rename ''A2'') ''a'' ''u''] \<and>
   fst (syncPendingOperations (rejecting ''UPDATE_PRESET_1700000000200_0.7'')
          (status (app_of True (queued [op_create, op_other, op_delete, op_update])))
          (app_of True (queued [op_create, op_other, op_delete, op_update]))) = False \<and>
   last (toasts (snd (syncPendingOperations (rejecting ''UPDATE_PRESET_1700000000200_0.7'')
          (status (app_of True (queued [op_create, op_other, op_delete, op_update])))
          (app_of True (queued [op_create, op_other, op_delete, op_update]))))) =
     OperacoesFalharam 1 \<and>
   supabase (snd (syncPendingOperations (env_of True False)
          (status (app_of True (queued [op_create, op_other, op_delete, op_update])))
          (snd (syncPendingOperations (rejecting ''UPDATE_PRESET_1700000000200_0.7'')
             (status (app_of True (queued [op_create, op_other, op_delete, op_update])))
             (app_of True (queued [op_create, op_other, op_delete, op_update])))))) =
     [Insert \<lparr>new_name = ''N'', new_description = None, new_user_id = ''u'',
              new_spell_ids = []\<rparr>,
      Delete ''b'' ''u'', Update (rename ''A2'') ''a'' ''u'',
      Update (rename ''A2'') ''a'' ''u'']"
proof -
  let ?e = "rejecting ''UPDATE_PRESET_1700000000200_0.7''"
  let ?s = "app_of True (queued [op_create, op_other, op_delete, op_update])"
  have h: "user ?e = Some ''u''" "isConnected (status ?s)"
    "initialized (cacheManager ?s)" "db (cacheManager ?s) = Some GrimoireCache"
    "user (env_of True False) = Some ''u''"
    by (simp_all add: rejecting_def env_of_def app_of_def queued_def open_manager_def)
  have q: "queue ?s = [op_create, op_other, op_delete, op_update]"
    by (simp add: queue_def app_of_def queued_def open_manager_def empty_db_def)
  have k: "keyed op_id (queue ?s)"
    unfolding q by (simp add: keyed_def op_create_def op_other_def op_delete_def op_update_def)
  have users: "op_user_id op_create = ''u''" "op_user_id op_other = ''v''"
    "op_user_id op_delete = ''u''" "op_user_id op_update = ''u''"
    by (simp_all add: op_create_def op_other_def op_delete_def op_update_def)
  have th: "\<not> throws ?e op_create" "\<not> throws ?e op_delete" "throws ?e op_update"
    by (simp_all add: throws_def issued_def rejecting_def op_create_def op_delete_def
        op_update_def)
  have calls: "issued op_create = [Insert \<lparr>new_name = ''N'', new_description = None,
                  new_user_id = ''u'', new_spell_ids = []\<rparr>]"
    "issued op_delete = [Delete ''b'' ''u'']" "issued op_update = [Update (rename ''A2'') ''a'' ''u'']"
    by (simp_all add: issued_def op_create_def op_delete_def op_update_def)
  have av: "available (env_of True False) = True" "supabase ?s = []"
    by (simp_all add: env_of_def app_of_def)
  from drain_alone [OF h(1-4) k h(5) h(2)]
  show ?thesis
    by (simp add: q users th calls av)
qed

subsection \<open>The order of the queue\<close>

text \<open>
  C1, as the code has it. \<open>getPendingOperations\<close> reads through the \<open>user_id\<close> index,
  which hands the rows out by primary key, and nothing sorts them by \<open>timestamp\<close>: with
  the database open and one row per id, the read returns the operations of the user, all
  of them and each once, in ascending order of their ids, and the drain of a signed-in user
  on a connected render issues their remote calls in that order.
\<close>

theorem queue_read_by_id:
  assumes "initialized (cacheManager s)" and "db (cacheManager s) = Some h"
    and "keyed op_id (queue s)" and "user env = Some u" and "isConnected rendered"
  shows "\<exists>pending.
           fst (getPendingOperations (available env) u (cacheManager s)) = Inr pending \<and>
           set pending = {x \<in> set (queue s). op_user_id x = u} \<and>
           sorted (map op_id pending) \<and> distinct (map op_id pending) \<and>
           supabase (snd (syncPendingOperations env rendered s)) =
             supabase s @ concat (map issued pending)"
proof -
  let ?pending = "filter (\<lambda>x. op_user_id x = u) (queue s)"
  have "keyed op_id ?pending"
    using assms(3) by (rule keyed_filter)
  then have "sorted (map op_id ?pending)" "distinct (map op_id ?pending)"
    by (simp_all add: keyed_def)
  moreover have "fst (getPendingOperations (available env) u (cacheManager s)) = Inr ?pending"
    using assms(1,2) by (simp add: getPendingOperations_open queue_def)
  moreover have "supabase (snd (syncPendingOperations env rendered s)) =
                   supabase s @ concat (map issued ?pending)"
    using assms(4,5,1,2) by (rule sync_effect(3))
  ultimately show ?thesis by auto
qed

text \<open>The queue of four operations: those of user u are read, and replayed, in the order
  of their ids; their timestamps are not ascending.\<close>

theorem queue_read_by_id_witness:
  "fst (getPendingOperations True ''u'' (queued [op_create, op_other, op_delete, op_update])) =
     Inr [op_create, op_delete, op_update] \<and>
   map op_timestamp [op_create, op_delete, op_update] =
     [1700000000100, 1700000000300, 1700000000200] \<and>
   supabase (snd (syncPendingOperations (env_of True False)
                    (status (app_of True (queued [op_create, op_other, op_delete, op_update])))
                    (app_of True (queued [op_create, op_other, op_delete, op_update])))) =
     [Insert \<lparr>new_name = ''N'', new_description = None, new_user_id = ''u'',
              new_spell_ids = []\<rparr>,
      Delete ''b'' ''u'', Update (rename ''A2'') ''a'' ''u'']"
proof -
  let ?s = "app_of True (queued [op_create, op_other, op_delete, op_update])"
  have h: "initialized (cacheManager ?s)" "db (cacheManager ?s) = Some GrimoireCache"
    "user (env_of True False) = Some ''u''" "isConnected (status ?s)"
    by (simp_all add: env_of_def app_of_def queued_def open_manager_def)
  have q: "queue ?s = [op_create, op_other, op_delete, op_update]"
    by (simp add: queue_def app_of_def queued_def open_manager_def empty_db_def)
  have k: "keyed op_id (queue ?s)"
    unfolding q by (simp add: keyed_def op_create_def op_other_def op_delete_def op_update_def)
  have c: "cacheManager ?s = queued [op_create, op_other, op_delete, op_update]"
    "available (env_of True False) = True" "supabase ?s = []"
    by (simp_all add: app_of_def env_of_def)
  have users: "op_user_id op_create = ''u''" "op_user_id op_other = ''v''"
    "op_user_id op_delete = ''u''" "op_user_id op_update = ''u''"
    by (simp_all add: op_create_def op_other_def op_delete_def op_update_def)
  have r: "fst (getPendingOperations True ''u'' (queued [op_create, op_other, op_delete, op_update])) =
             Inr [op_create, op_delete, op_update]"
    by (simp add: getPendingOperations_def ensureInitialized_def queued_def open_manager_def
        empty_db_def users)
  have calls: "issued op_create = [Insert \<lparr>new_name = ''N'', new_description = None,
                  new_user_id = ''u'', new_spell_ids = []\<rparr>]"
    "issued op_delete = [Delete ''b'' ''u'']"
    "issued op_update = [Update (rename ''A2'') ''a'' ''u'']"
    by (simp_all add: issued_def op_create_def op_delete_def op_update_def)
  have t: "map op_timestamp [op_create, op_delete, op_update] =
     [1700000000100, 1700000000300, 1700000000200]"
    by (simp add: op_create_def op_delete_def op_update_def)
  from queue_read_by_id [OF h(1,2) k h(3,4)] obtain pending where
    p: "fst (getPendingOperations (available (env_of True False)) ''u'' (cacheManager ?s)) =
          Inr pending \<and>
        set pending = {x \<in> set (queue ?s). op_user_id x = ''u''} \<and>
        sorted (map op_id pending) \<and> distinct (map op_id pending) \<and>
        supabase (snd (syncPendingOperations (env_of True False) (status ?s) ?s)) =
          supabase ?s @ concat (map issued pending)" ..
  note p1 = p [THEN conjunct1]
  note p2 = p [THEN conjunct2, THEN conjunct2, THEN conjunct2, THEN conjunct2]
  from p1 r have "pending = [op_create, op_delete, op_update]"
    by (simp add: c)
  with p2 r t show ?thesis by (simp add: c calls)
qed

text \<open>
  C1 as stated fails. User u enqueued an update at ...100 and then a create at ...200; the
  id of the create (\<open>CREATE_PRESET_...\<close>) is below the id of the update
  (\<open>UPDATE_PRESET_...\<close>), so the read returns the create first, against the timestamps,
  and the drain replays it first.
\<close>

theorem queue_timestamp_order_counterexample:
  "\<not> sorted [1700000000200, 1700000000100 :: int] \<and>
   fst (getPendingOperations True ''u'' update_then_create) =
     Inr [\<lparr>op_id = ''CREATE_PRESET_1700000000200_0.3'',
            op_data = CREATE_PRESET \<lparr>new_name = ''N'', new_description = None,
                                     new_user_id = ''u'', new_spell_ids = []\<rparr>,
            op_timestamp = 1700000000200, op_user_id = ''u''\<rparr>,
          \<lparr>op_id = ''UPDATE_PRESET_1700000000100_0.5'',
            op_data = UPDATE_PRESET ''a'' (rename ''A2''),
            op_timestamp = 1700000000100, op_user_id = ''u''\<rparr>] \<and>
   supabase (snd (syncPendingOperations (env_of True False)
                    (status (app_of True update_then_create))
                    (app_of True update_then_create))) =
     [Insert \<lparr>new_name = ''N'', new_description = None, new_user_id = ''u'',
              new_spell_ids = []\<rparr>,
      Update (rename ''A2'') ''a'' ''u'']"
proof -
  have o: "initialized (queued [])" "db (queued []) = Some GrimoireCache"
    by (simp_all add: queued_def open_manager_def)
  have cm: "update_then_create =
       queued [\<lparr>op_id = ''CREATE_PRESET_1700000000200_0.3'',
            op_data = CREATE_PRESET \<lparr>new_name = ''N'', new_description = None,
                                     new_user_id = ''u'', new_spell_ids = []\<rparr>,
            op_timestamp = 1700000000200, op_user_id = ''u''\<rparr>,
          \<lparr>op_id = ''UPDATE_PRESET_1700000000100_0.5'',
            op_data = UPDATE_PRESET ''a'' (rename ''A2''),
            op_timestamp = 1700000000100, op_user_id = ''u''\<rparr>]"
    by (simp add: update_then_create_def queued_def open_manager_def empty_db_def
        addPendingOperation_def ensureInitialized_def render_int_def digit_def Let_def)
  have s: "user (env_of True False) = Some ''u''"
    "isConnected (status (app_of True c))"
    "initialized (cacheManager (app_of True (queued ops)))"
    "db (cacheManager (app_of True (queued ops))) = Some GrimoireCache"
    "supabase (app_of True c) = []"
    "queue (app_of True (queued ops)) = ops" for c ops
    by (simp_all add: env_of_def app_of_def queued_def open_manager_def queue_def empty_db_def)
  show ?thesis
    unfolding cm
    by (simp add: sync_effect(3) [OF s(1-4)] s(5,6) issued_def)
       (simp add: getPendingOperations_def ensureInitialized_def queued_def open_manager_def
          empty_db_def)
qed

subsection \<open>Starting a drain\<close>

text \<open>
  C2 does not hold of the code. \<open>syncPendingOperations\<close> tests the user and
  \<open>isConnected\<close> and never \<open>syncing\<close>, and \<open>checkConnection\<close> tests only the pending
  count: with \<open>syncing\<close> set, both start a drain and replay the queued create. Only
  \<open>handleSync\<close>, the manual trigger, tests the flag and does nothing.
\<close>

theorem drain_starts_while_syncing:
  "syncing (status mid_drain) \<and>
   supabase (snd (syncPendingOperations (env_of True False) (status mid_drain) mid_drain)) =
     [Insert \<lparr>new_name = ''N'', new_description = None, new_user_id = ''u'',
              new_spell_ids = []\<rparr>] \<and>
   supabase (checkConnection (env_of True False) True (status mid_drain) mid_drain) =
     [Insert \<lparr>new_name = ''N'', new_description = None, new_user_id = ''u'',
              new_spell_ids = []\<rparr>] \<and>
   handleSync (env_of True False) (status mid_drain) mid_drain = mid_drain"
proof -
  have s: "user (env_of True False) = Some ''u''" "isConnected (status mid_drain)"
    "initialized (cacheManager mid_drain)" "db (cacheManager mid_drain) = Some GrimoireCache"
    "supabase mid_drain = []" "queue mid_drain = [op_create]" "syncing (status mid_drain)"
    "pendingOperations (status mid_drain) = 1" "op_user_id op_create = ''u''"
    by (simp_all add: env_of_def mid_drain_def app_of_def queued_def open_manager_def queue_def
        empty_db_def op_create_def)
  have i: "issued op_create = [Insert \<lparr>new_name = ''N'', new_description = None,
             new_user_id = ''u'', new_spell_ids = []\<rparr>]"
    by (simp add: issued_def op_create_def)
  let ?s1 = "updatePendingCount (env_of True False)
               (mid_drain\<lparr>status := (status mid_drain)\<lparr>isConnected := True\<rparr>\<rparr>)"
  have c: "initialized (cacheManager ?s1)" "db (cacheManager ?s1) = Some GrimoireCache"
    "supabase ?s1 = []" "queue ?s1 = [op_create]"
    using s(1,3,4,5,6)
    by (simp_all add: updatePendingCount_def getPendingOperations_open queue_def)
  show ?thesis
    using s(7,8)
    by (simp add: sync_effect(3) [OF s(1-4)] s(5,6,9) i handleSync_def checkConnection_def
        Let_def sync_effect(3) [OF s(1,2) c(1,2)] c(3,4))
qed

subsection \<open>Ids of presets created offline\<close>

lemma offline_free_cong:
  "queue s' = queue s \<Longrightarrow> supabase s' = supabase s \<Longrightarrow> offline_free s' = offline_free s"
  by (simp add: offline_free_def)

lemma offline_free_sub:
  "offline_free s \<Longrightarrow> set (queue s') \<subseteq> set (queue s) \<Longrightarrow> supabase s' = supabase s \<Longrightarrow>
   offline_free s'"
  by (auto simp: offline_free_def list_all_iff)

lemma offline_free_fields [simp]:
  "offline_free (s\<lparr>presets := ps\<rparr>) = offline_free s"
  "offline_free (s\<lparr>activePresetId := a\<rparr>) = offline_free s"
  "offline_free (s\<lparr>error_msg := e\<rparr>) = offline_free s"
  "offline_free (s\<lparr>status := st\<rparr>) = offline_free s"
  "offline_free (s\<lparr>toasts := t\<rparr>) = offline_free s"
  by (simp_all add: offline_free_def queue_def)

lemma offline_free_call:
  "offline_free (s\<lparr>supabase := supabase s @ cs\<rparr>) =
     (offline_free s \<and> list_all (\<lambda>c. \<not> call_targets_offline c) cs)"
  by (auto simp: offline_free_def queue_def)

lemma offline_free_unawaited [simp]:
  "offline_free (cache_presets_unawaited env ps u s) = offline_free s"
  by (rule offline_free_cong) (simp_all add: cache_presets_unawaited_frame)

lemma offline_free_count [simp]:
  "offline_free (updatePendingCount env s) = offline_free s"
  by (rule offline_free_cong) (simp_all add: updatePendingCount_frame)

lemma store_put_cases: "x \<in> set (store_put k r rows) \<Longrightarrow> x = r \<or> x \<in> set rows"
  using store_put_subset [of k r rows] by auto

lemma addPendingOperation_rows:
  "x \<in> set (pending_operations (idb (snd (addPendingOperation av t1 rnd t2 d u cm)))) \<Longrightarrow>
   x \<in> set (pending_operations (idb cm)) \<or> op_data x = d"
  using ensureInitialized_cases [of av cm]
  by (auto simp: addPendingOperation_def Let_def split: sum.splits if_splits
      dest!: store_put_cases)

lemma offline_free_enqueue:
  assumes "offline_free s" and "\<not> targets_offline d"
  shows "offline_free (snd (enqueue env d u s))"
proof -
  have "cacheManager (snd (enqueue env d u s)) =
        snd (addPendingOperation (available env) (now env) (random env) (now env) d u (cacheManager s))"
    by (simp add: enqueue_def split: prod.splits)
  then have "\<forall>x\<in>set (queue (snd (enqueue env d u s))). x \<in> set (queue s) \<or> op_data x = d"
    using addPendingOperation_rows by (auto simp: queue_def)
  with assms show ?thesis
    by (auto simp: offline_free_def list_all_iff enqueue_frame)
qed

lemma offline_free_enqueued:
  "enqueue env d u s = (r, s') \<Longrightarrow> offline_free s \<Longrightarrow> \<not> targets_offline d \<Longrightarrow> offline_free s'"
  using offline_free_enqueue [of s d env u] by simp

lemma offline_free_createPreset:
  "offline_free s \<Longrightarrow> offline_free (snd (createPreset env name description s))"
  by (auto simp: createPreset_def Let_def offline_free_call split: option.splits prod.splits sum.splits
      dest!: offline_free_enqueued)

lemma offline_free_updatePreset:
  "offline_free s \<Longrightarrow> offline_free (snd (updatePreset env i updates s))"
  by (auto simp: updatePreset_def Let_def offline_free_call split: option.splits prod.splits sum.splits
      dest!: offline_free_enqueued)

lemma offline_free_deletePreset:
  "offline_free s \<Longrightarrow> offline_free (snd (deletePreset env i s))"
  by (auto simp: deletePreset_def Let_def offline_free_call split: option.splits prod.splits sum.splits
      dest!: offline_free_enqueued)

lemma offline_free_addSpellToPreset:
  "offline_free s \<Longrightarrow> offline_free (snd (addSpellToPreset env spellId presetId s))"
  by (auto simp: addSpellToPreset_def offline_free_updatePreset split: option.splits)

lemma offline_free_removeSpellFromPreset:
  "offline_free s \<Longrightarrow> offline_free (snd (removeSpellFromPreset env spellId presetId s))"
  by (auto simp: removeSpellFromPreset_def offline_free_updatePreset split: option.splits)

lemma offline_free_manager:
  "pending_operations (idb cm) = queue s \<Longrightarrow> offline_free (s\<lparr>cacheManager := cm\<rparr>) = offline_free s"
  by (simp add: offline_free_def queue_def)

lemma offline_free_createDefaultOfflinePreset:
  assumes "offline_free s"
  shows "offline_free (snd (createDefaultOfflinePreset env s))"
proof (cases "user env")
  case None
  with assms show ?thesis by (simp add: createDefaultOfflinePreset_def)
next
  case (Some uid)
  let ?p = "\<lparr>preset_id = offline_id env uid, preset_name = ''MY GRIMOIRE (Offline)'',
             preset_description = Some ''Your personal collection of favorite spells'',
             preset_spell_ids = [], preset_user_id = uid,
             preset_created_at = iso_now env, preset_updated_at = iso_now env\<rparr>"
  let ?s1 = "s\<lparr>presets := [?p], activePresetId := Some (preset_id ?p)\<rparr>"
  obtain r cm where c: "cacheFavoritePresets (available env) (now env) [?p] uid (cacheManager ?s1) = (r, cm)"
    by (cases "cacheFavoritePresets (available env) (now env) [?p] uid (cacheManager ?s1)")
  have "pending_operations (idb cm) = queue s"
    using cacheFavoritePresets_queue [of "available env" "now env" "[?p]" uid "cacheManager ?s1"] c
    by (simp add: queue_def)
  then have f: "offline_free (?s1\<lparr>cacheManager := cm\<rparr>)"
    using assms by (simp add: offline_free_def queue_def)
  show ?thesis
    using Some c f
    by (auto simp: createDefaultOfflinePreset_def Let_def split: sum.splits prod.splits
        dest!: offline_free_enqueued)
qed

lemma issued_offline_free:
  "\<not> targets_offline (op_data x) \<Longrightarrow> list_all (\<lambda>c. \<not> call_targets_offline c) (issued x)"
  by (cases "op_data x") (simp_all add: issued_def)

lemma removePendingOperation_rows:
  "set (pending_operations (idb (snd (removePendingOperation av i cm)))) \<subseteq>
   set (pending_operations (idb cm))"
  using ensureInitialized_cases [of av cm]
  by (auto simp: removePendingOperation_def store_delete_def split: sum.splits if_splits)

lemma offline_free_drain:
  "offline_free s \<Longrightarrow> \<forall>x\<in>set pending. \<not> targets_offline (op_data x) \<Longrightarrow>
   offline_free (snd (snd (drain env pending (sc, fc, s))))"
proof (induction pending arbitrary: sc fc s)
  case Nil
  then show ?case by simp
next
  case (Cons operation rest)
  let ?s1 = "s\<lparr>supabase := supabase s @ issued operation\<rparr>"
  let ?cm = "snd (removePendingOperation (available env) (op_id operation) (cacheManager ?s1))"
  have s1: "offline_free ?s1"
    using Cons.prems by (simp add: offline_free_call issued_offline_free)
  have "set (queue (?s1\<lparr>cacheManager := ?cm\<rparr>)) \<subseteq> set (queue ?s1)"
    using removePendingOperation_rows [of "available env" "op_id operation" "cacheManager ?s1"]
    by (simp add: queue_def)
  with s1 have s2: "offline_free (?s1\<lparr>cacheManager := ?cm\<rparr>)"
    by (rule offline_free_sub) simp
  have rest: "\<forall>x\<in>set rest. \<not> targets_offline (op_data x)"
    using Cons.prems(2) by simp
  show ?case
    using Cons.IH [OF s1 rest] Cons.IH [OF s2 rest]
    by (auto simp: processOperation_eq split: prod.splits sum.splits)
qed

lemma getPendingOperations_rows:
  "getPendingOperations av u cm = (Inr pending, cm') \<Longrightarrow>
   set pending \<subseteq> set (pending_operations (idb cm)) \<and> idb cm' = idb cm"
  using ensureInitialized_cases [of av cm]
  by (auto simp: getPendingOperations_def split: sum.splits if_splits)

lemma setMetadata_queue:
  "pending_operations (idb (snd (setMetadata av tm key v cm))) = pending_operations (idb cm)"
  using ensureInitialized_cases [of av cm]
  by (auto simp: setMetadata_def split: sum.splits)

lemma offline_free_record_sync:
  "offline_free s \<Longrightarrow> offline_free (snd (record_sync env sc fc s))"
proof -
  assume a: "offline_free s"
  obtain r cm where m: "setMetadata (available env) (now env) ''last_sync_time'' (now env)
                           (cacheManager s) = (r, cm)"
    by (cases "setMetadata (available env) (now env) ''last_sync_time'' (now env) (cacheManager s)")
  then have "pending_operations (idb cm) = queue s"
    using setMetadata_queue [of "available env" "now env" "''last_sync_time''" "now env" "cacheManager s"]
    by (simp add: queue_def)
  with a m show ?thesis
    by (cases r) (simp_all add: record_sync_def offline_free_def queue_def)
qed

lemma offline_free_sync:
  assumes "offline_free s"
  shows "offline_free (snd (syncPendingOperations env rendered s))"
proof (cases "user env")
  case None
  with assms show ?thesis by (simp add: syncPendingOperations_def)
next
  case (Some uid)
  show ?thesis
  proof (cases "isConnected rendered")
    case False
    with Some assms show ?thesis by (simp add: syncPendingOperations_def)
  next
    case True
    let ?s1 = "s\<lparr>status := (status s)\<lparr>syncing := True\<rparr>\<rparr>"
    obtain r cm where g: "getPendingOperations (available env) uid (cacheManager ?s1) = (r, cm)"
      by (cases "getPendingOperations (available env) uid (cacheManager ?s1)")
    have i: "idb cm = idb (cacheManager s)"
      using getPendingOperations_idb [of "available env" uid "cacheManager ?s1"] g by simp
    then have f: "offline_free (?s1\<lparr>cacheManager := cm\<rparr>)"
      using assms by (simp add: offline_free_def queue_def)
    show ?thesis
    proof (cases r)
      case (Inl e)
      with Some True g f show ?thesis
        by (simp add: syncPendingOperations_def Let_def offline_free_def queue_def)
    next
      case (Inr pending)
      with g have "set pending \<subseteq> set (queue s)"
        using getPendingOperations_rows [of "available env" uid "cacheManager ?s1" pending cm]
        by (simp add: queue_def)
      with assms have "\<forall>x\<in>set pending. \<not> targets_offline (op_data x)"
        by (auto simp: offline_free_def list_all_iff)
      with f have d: "offline_free (snd (snd (drain env pending (0, 0, ?s1\<lparr>cacheManager := cm\<rparr>))))"
        by (rule offline_free_drain)
      obtain sc fc s2 where dr: "drain env pending (0, 0, ?s1\<lparr>cacheManager := cm\<rparr>) = (sc, fc, s2)"
        by (cases "drain env pending (0, 0, ?s1\<lparr>cacheManager := cm\<rparr>)") auto
      with d have s2: "offline_free s2" by simp
      have s3: "offline_free (snd (record_sync env sc fc s2))"
        using s2 by (rule offline_free_record_sync)
      show ?thesis
        using Some True g Inr dr s2 s3
        by (auto simp: syncPendingOperations_def Let_def split: prod.splits sum.splits)
    qed
  qed
qed

lemma offline_free_checkConnection:
  "offline_free s \<Longrightarrow> offline_free (checkConnection env connected rendered s)"
  by (simp add: checkConnection_def Let_def offline_free_sync)

lemma offline_free_handleSync:
  "offline_free s \<Longrightarrow> offline_free (handleSync env rendered s)"
  by (simp add: handleSync_def offline_free_sync)

lemma offline_free_perform:
  "offline_free s \<Longrightarrow> offline_free (perform env a s)"
  by (cases a)
     (simp_all add: offline_free_createPreset offline_free_updatePreset offline_free_deletePreset
        offline_free_addSpellToPreset offline_free_removeSpellFromPreset
        offline_free_createDefaultOfflinePreset offline_free_sync offline_free_checkConnection
        offline_free_handleSync)

lemma offline_free_run:
  "offline_free s \<Longrightarrow> offline_free (run steps s)"
  by (induction steps arbitrary: s) (auto simp: offline_free_perform)

lemma updatePreset_offline_id:
  assumes "prefix ''offline_'' i"
  shows "supabase (snd (updatePreset env i updates s)) = supabase s"
    and "queue (snd (updatePreset env i updates s)) = queue s"
  using assms
  by (simp_all add: updatePreset_def Let_def cache_presets_unawaited_frame queue_def
      cache_presets_unawaited_def cacheFavoritePresets_queue split: option.splits)

lemma deletePreset_offline_id:
  assumes "prefix ''offline_'' i"
  shows "supabase (snd (deletePreset env i s)) = supabase s"
    and "queue (snd (deletePreset env i s)) = queue s"
  using assms
  by (simp_all add: deletePreset_def Let_def cache_presets_unawaited_frame queue_def
      cache_presets_unawaited_def cacheFavoritePresets_queue split: option.splits)

text \<open>
  C7. For an id that starts with \<open>offline_\<close>, \<open>updatePreset\<close> and \<open>deletePreset\<close>
  issue no remote call and leave the queue as it was, in every state and environment.
  And along every run of the hooks (create, update, delete, add and remove a spell, the
  default offline preset, the drain, the connection check, the manual sync) from a state
  where no queued update or delete and no remote update or delete targets such an id, none
  ever does.
\<close>

theorem offline_ids_stay_local:
  "(prefix ''offline_'' i \<longrightarrow>
      supabase (snd (updatePreset env i updates s)) = supabase s \<and>
      queue (snd (updatePreset env i updates s)) = queue s \<and>
      supabase (snd (deletePreset env i s)) = supabase s \<and>
      queue (snd (deletePreset env i s)) = queue s) \<and>
   (offline_free s0 \<longrightarrow> offline_free (run steps s0))"
  by (simp add: updatePreset_offline_id deletePreset_offline_id offline_free_run)

text \<open>User u, connected, updates and deletes the id offline_u_1700000000000; and the
  session above is run from an empty queue.\<close>

theorem offline_ids_stay_local_witness:
  "prefix ''offline_'' ''offline_u_1700000000000'' \<and>
   supabase (snd (updatePreset (env_of True False) ''offline_u_1700000000000'' (rename ''N2'')
                    (app_of True (queued [])))) = supabase (app_of True (queued [])) \<and>
   queue (snd (updatePreset (env_of True False) ''offline_u_1700000000000'' (rename ''N2'')
                 (app_of True (queued [])))) = queue (app_of True (queued [])) \<and>
   supabase (snd (deletePreset (env_of True False) ''offline_u_1700000000000''
                    (app_of True (queued [])))) = supabase (app_of True (queued [])) \<and>
   queue (snd (deletePreset (env_of True False) ''offline_u_1700000000000''
                 (app_of True (queued [])))) = queue (app_of True (queued [])) \<and>
   offline_free (app_of False (queued [])) \<and>
   offline_free (run session (app_of False (queued [])))"
proof -
  have p: "prefix ''offline_'' ''offline_u_1700000000000''" by simp
  have f: "offline_free (app_of False (queued []))"
    by (simp add: offline_free_def queue_def app_of_def queued_def open_manager_def empty_db_def)
  from offline_ids_stay_local [where i = "''offline_u_1700000000000''"
         and env = "env_of True False" and updates = "rename ''N2''"
         and s = "app_of True (queued [])" and s0 = "app_of False (queued [])"
         and steps = session]
  show ?thesis using p f by blast
qed

subsection \<open>Expiry of cached spells\<close>

lemma spells_written_rows:
  "spells_written rows \<Longrightarrow>
   keyed row_id rows \<and>
   (\<forall>r\<in>set rows. ttl r = Some 86400000 \<and> row_id r = spell_id (data r))"
proof (induction rule: spells_written.induct)
  case no_spell
  show ?case by (simp add: keyed_def)
next
  case (put_spell rows t spell)
  then show ?case
    by (auto simp: store_put_keyed cacheSpell_def dest!: store_put_cases)
qed

lemma spells_written_data:
  assumes "spells_written rows" and "x \<in> set rows" and "y \<in> set rows" and "data x = data y"
  shows "x = y"
proof -
  from spells_written_rows [OF assms(1)]
  have k: "distinct (map row_id rows)" and i: "row_id x = row_id y"
    using assms(2-4) by (simp_all add: keyed_def)
  from k have "inj_on row_id (set rows)" by (simp add: distinct_map)
  with i assms(2,3) show ?thesis by (auto dest: inj_onD)
qed

lemma spells_written_puts:
  "spells_written rows \<Longrightarrow>
   spells_written (foldl (\<lambda>st spell. store_put row_id (cacheSpell t spell) st) rows sps)"
  by (induction sps arbitrary: rows) (simp_all add: spells_written.put_spell)

lemma setMetadata_spells:
  "spells (idb (snd (setMetadata av tm key v cm))) = spells (idb cm)"
  using ensureInitialized_cases [of av cm]
  by (auto simp: setMetadata_def split: sum.splits)

lemma cacheSpells_written:
  assumes "spells_written (spells (idb cm))"
  shows "spells_written (spells (idb (snd (cacheSpells av t sps cm))))"
  using ensureInitialized_cases [of av cm] assms
  by (auto simp: cacheSpells_def setMetadata_spells spells_written_puts split: sum.splits)

lemma valid_data_member:
  assumes "spells_written rows" and "entry \<in> set rows"
  shows "data entry \<in> set (valid_data tm rows) \<longleftrightarrow> ttl_valid tm entry"
proof
  assume "data entry \<in> set (valid_data tm rows)"
  then obtain y where y: "y \<in> set rows" "ttl_valid tm y" "data y = data entry"
    by (auto simp: valid_data_def)
  with spells_written_data [OF assms(1) y(1) assms(2)] show "ttl_valid tm entry" by simp
next
  assume "ttl_valid tm entry"
  with assms(2) show "data entry \<in> set (valid_data tm rows)"
    by (auto simp: valid_data_def)
qed

text \<open>
  C5. The database is open and \<open>entry\<close> is a row of the spells store. If the store is one
  the program has written, \<open>entry\<close> carries a ttl \<open>t\<close>, and a read at any time returns
  the data of \<open>entry\<close> exactly when \<open>now - cached_at < t\<close>: the read at
  \<open>cached_at + t + 1\<close> does not return it, nor does the read at \<open>cached_at + t\<close>, and the
  read at \<open>cached_at + t - 1\<close> returns it. In any store, a row without ttl is returned by
  every read.
\<close>

theorem getCachedSpells_validity:
  assumes "initialized cm" and "db cm = Some h" and "entry \<in> set (spells (idb cm))"
  shows "(spells_written (spells (idb cm)) \<longrightarrow>
           (\<exists>t. ttl entry = Some t \<and>
              (\<forall>tm. \<exists>found. fst (getCachedSpells av tm cm) = Inr found \<and>
                 (data entry \<in> set found \<longleftrightarrow> tm - cached_at entry < t)) \<and>
              (\<exists>found. fst (getCachedSpells av (cached_at entry + t + 1) cm) = Inr found \<and>
                 data entry \<notin> set found) \<and>
              (\<exists>found. fst (getCachedSpells av (cached_at entry + t) cm) = Inr found \<and>
                 data entry \<notin> set found) \<and>
              (\<exists>found. fst (getCachedSpells av (cached_at entry + t - 1) cm) = Inr found \<and>
                 data entry \<in> set found))) \<and>
         (ttl entry = None \<longrightarrow>
           (\<forall>tm. \<exists>found. fst (getCachedSpells av tm cm) = Inr found \<and>
              data entry \<in> set found))"
proof (intro conjI impI)
  assume w: "spells_written (spells (idb cm))"
  let ?t = "86400000 :: int"
  from spells_written_rows [OF w] assms(3) have t: "ttl entry = Some ?t" by simp
  have m: "data entry \<in> set (valid_data tm (spells (idb cm))) \<longleftrightarrow> tm - cached_at entry < ?t"
    for tm
    using valid_data_member [OF w assms(3), of tm] t by (simp add: ttl_valid_def)
  have r: "fst (getCachedSpells av tm cm) = Inr (valid_data tm (spells (idb cm)))" for tm
    using assms(1,2) by (simp add: getCachedSpells_open)
  show "\<exists>t. ttl entry = Some t \<and>
              (\<forall>tm. \<exists>found. fst (getCachedSpells av tm cm) = Inr found \<and>
                 (data entry \<in> set found \<longleftrightarrow> tm - cached_at entry < t)) \<and>
              (\<exists>found. fst (getCachedSpells av (cached_at entry + t + 1) cm) = Inr found \<and>
                 data entry \<notin> set found) \<and>
              (\<exists>found. fst (getCachedSpells av (cached_at entry + t) cm) = Inr found \<and>
                 data entry \<notin> set found) \<and>
              (\<exists>found. fst (getCachedSpells av (cached_at entry + t - 1) cm) = Inr found \<and>
                 data entry \<in> set found)"
  proof (intro exI [of _ ?t] conjI allI)
    show "ttl entry = Some ?t" by (rule t)
    show "\<exists>found. fst (getCachedSpells av tm cm) = Inr found \<and>
            (data entry \<in> set found \<longleftrightarrow> tm - cached_at entry < ?t)" for tm
      using r [of tm] m [of tm] by blast
    show "\<exists>found. fst (getCachedSpells av (cached_at entry + ?t + 1) cm) = Inr found \<and>
            data entry \<notin> set found"
      using r [of "cached_at entry + ?t + 1"] m [of "cached_at entry + ?t + 1"] by simp
    show "\<exists>found. fst (getCachedSpells av (cached_at entry + ?t) cm) = Inr found \<and>
            data entry \<notin> set found"
      using r [of "cached_at entry + ?t"] m [of "cached_at entry + ?t"] by simp
    show "\<exists>found. fst (getCachedSpells av (cached_at entry + ?t - 1) cm) = Inr found \<and>
            data entry \<in> set found"
      using r [of "cached_at entry + ?t - 1"] m [of "cached_at entry + ?t - 1"] by simp
  qed
next
  assume n: "ttl entry = None"
  show "\<forall>tm. \<exists>found. fst (getCachedSpells av tm cm) = Inr found \<and> data entry \<in> set found"
    using assms n by (auto simp: getCachedSpells_open valid_data_def ttl_valid_def)
qed

text \<open>Fireball cached at 1000 and Shield at 5000 by \<open>cacheSpells\<close>, read one millisecond
  after the expiry of Fireball, at its expiry and one millisecond before; and a row without
  ttl read much later.\<close>

theorem getCachedSpells_validity_witness:
  "fst (getCachedSpells True (1000 + 86400000 + 1) two_spells) = Inr [shield] \<and>
   fst (getCachedSpells True (1000 + 86400000) two_spells) = Inr [shield] \<and>
   fst (getCachedSpells True (1000 + 86400000 - 1) two_spells) = Inr [fireball, shield] \<and>
   fst (getCachedSpells True 999999999999
          (open_manager (empty_db\<lparr>spells := [no_ttl_row]\<rparr>))) = Inr [shield]"
proof -
  let ?n = "open_manager (empty_db\<lparr>spells := [no_ttl_row]\<rparr>)"
  have rows: "spells (idb two_spells) = [cacheSpell 1000 fireball, cacheSpell 5000 shield]"
    and o: "initialized two_spells" "db two_spells = Some GrimoireCache"
    by (simp_all add: two_spells_def cacheSpells_def setMetadata_def ensureInitialized_def
        open_manager_def empty_db_def cacheSpell_def fireball_def shield_def)
  have "spells_written (spells (idb (open_manager empty_db)))"
    by (simp add: open_manager_def empty_db_def spells_written.no_spell)
  then have w: "spells_written (spells (idb two_spells))"
    unfolding two_spells_def by (intro cacheSpells_written)
  have e: "cacheSpell 1000 fireball \<in> set (spells (idb two_spells))"
    by (simp add: rows)
  have n: "initialized ?n" "db ?n = Some GrimoireCache" "no_ttl_row \<in> set (spells (idb ?n))"
    "ttl no_ttl_row = None"
    by (simp_all add: open_manager_def empty_db_def no_ttl_row_def)
  have v: "fst (getCachedSpells True tm two_spells) =
             Inr (valid_data tm [cacheSpell 1000 fireball, cacheSpell 5000 shield])" for tm
    using o by (simp add: getCachedSpells_open rows)
  have d: "valid_data (1000 + 86400000 + 1) [cacheSpell 1000 fireball, cacheSpell 5000 shield] = [shield]"
    "valid_data (1000 + 86400000) [cacheSpell 1000 fireball, cacheSpell 5000 shield] = [shield]"
    "valid_data (1000 + 86400000 - 1) [cacheSpell 1000 fireball, cacheSpell 5000 shield] =
       [fireball, shield]"
    by (simp_all add: valid_data_def ttl_valid_def cacheSpell_def)
  have x: "fst (getCachedSpells True 999999999999 ?n) = Inr [shield]"
    by (simp add: getCachedSpells_def ensureInitialized_def open_manager_def empty_db_def
        valid_data_def ttl_valid_def no_ttl_row_def)
  from getCachedSpells_validity [OF o e, of True] getCachedSpells_validity [OF n(1-3), of True]
  show ?thesis
    using w n(4) v d x by simp
qed

subsection \<open>The parts of a refresh\<close>

lemma cacheFavoritePresets_parts:
  assumes "initialized cm \<or> av"
  shows "snd (cacheFavoritePresets av tm ps u cm) =
         cache_writes av [ClearRows u, PutRows tm ps u] cm"
  using assms
  by (auto simp: cacheFavoritePresets_def cacheFavoritePresets_clear_def
      cacheFavoritePresets_put_def clearUserPresets_def ensureInitialized_def initialize_def
      Let_def)

lemma put_presets_rows:
  "set (put_presets tm u rows ps) \<subseteq> set rows \<union> cachePreset tm u ` set ps"
proof (induction ps arbitrary: rows)
  case Nil
  then show ?case by (simp add: put_presets_simps)
next
  case (Cons p ps)
  from Cons.IH [of "store_put prow_id (cachePreset tm u p) rows"]
    store_put_subset [of prow_id "cachePreset tm u p" rows]
  show ?case by (auto simp: put_presets_simps)
qed

lemma setMetadata_presets:
  "favorite_presets (idb (snd (setMetadata av tm key v cm))) = favorite_presets (idb cm)"
  using ensureInitialized_cases [of av cm]
  by (auto simp: setMetadata_def split: sum.splits)

lemma presets_written_puts:
  "presets_written rows \<Longrightarrow> presets_written (put_presets tm u rows ps)"
  by (induction ps arbitrary: rows) (simp_all add: put_presets_simps presets_written.put_preset)

lemma cache_write_written:
  assumes "presets_written (favorite_presets (idb cm))"
  shows "presets_written (favorite_presets (idb (cache_write av w cm)))"
proof (cases w)
  case (ClearRows u)
  with assms ensureInitialized_cases [of av cm] show ?thesis
    by (auto simp: cacheFavoritePresets_clear_def clearUserPresets_def
        presets_written.clear_user split: sum.splits)
next
  case (PutRows tm ps u)
  with assms show ?thesis
    by (simp add: cacheFavoritePresets_put_def setMetadata_presets presets_written_puts)
qed

lemma cache_writes_written:
  "presets_written (favorite_presets (idb cm)) \<Longrightarrow>
   presets_written (favorite_presets (idb (cache_writes av ws cm)))"
  by (induction ws arbitrary: cm) (simp_all add: cache_write_written)

lemma cacheFavoritePresets_written:
  assumes "presets_written (favorite_presets (idb cm))"
  shows "presets_written (favorite_presets (idb (snd (cacheFavoritePresets av tm ps u cm))))"
proof (cases "initialized cm \<or> av")
  case True
  then show ?thesis
    using cache_writes_written [OF assms] by (simp only: cacheFavoritePresets_parts)
next
  case False
  with assms show ?thesis
    by (simp add: cacheFavoritePresets_def ensureInitialized_def initialize_def)
qed


subsection \<open>The lookup by user and expiry\<close>



subsection \<open>A refresh replaces the user's cached presets\<close>

text \<open>The refresh as one step: clearing and puts with nothing between them.\<close>

lemma cacheFavoritePresets_lookup:
  assumes "initialized cm" and "db cm = Some h"
    and "keyed prow_id (favorite_presets (idb cm))"
    and "distinct (map preset_id ps)"
    and "\<forall>x\<in>set (favorite_presets (idb cm)).
           prow_user_id x \<noteq> u \<longrightarrow> prow_id x \<notin> preset_id ` set ps"
  shows "(\<exists>found.
            fst (getCachedFavoritePresets av u (snd (cacheFavoritePresets av tm ps u cm))) =
              Inr found \<and>
            mset found = mset ps \<and> sorted (map preset_id found)) \<and>
         (\<forall>v. v \<noteq> u \<longrightarrow>
            fst (getCachedFavoritePresets av v (snd (cacheFavoritePresets av tm ps u cm))) =
            fst (getCachedFavoritePresets av v cm))"
proof -
  let ?rows = "favorite_presets (idb cm)"
  let ?kept = "filter (\<lambda>x. prow_user_id x \<noteq> u) ?rows"
  let ?after = "put_presets tm u ?kept ps"
  let ?cm = "snd (cacheFavoritePresets av tm ps u cm)"
  let ?mine = "filter (\<lambda>x. prow_user_id x = u) ?after"
  have open': "initialized ?cm" "db ?cm = Some h" "favorite_presets (idb ?cm) = ?after"
    by (simp_all add: cacheFavoritePresets_open [OF assms(1,2)] assms(1,2))
  have kept: "keyed prow_id ?kept" using assms(3) by (rule keyed_filter)
  have rows: "mset ?mine = mset (map (cachePreset tm u) ps)"
    using kept assms(4) by (rule put_presets_rows_of_user) simp
  have read: "fst (getCachedFavoritePresets av u ?cm) = Inr (map data ?mine)"
    by (simp add: getCachedFavoritePresets_open [OF open'(1,2)] open'(3))
  have "mset (map data ?mine) = image_mset data (mset (map (cachePreset tm u) ps))"
    using rows by (simp only: mset_map)
  also have "\<dots> = mset ps"
    by (simp add: multiset.map_comp comp_def cachePreset_def)
  finally have same: "mset (map data ?mine) = mset ps" .
  have "set ?mine = set (map (cachePreset tm u) ps)"
    using rows by (rule mset_eq_setD)
  then have ids: "map preset_id (map data ?mine) = map prow_id ?mine"
    by (auto simp: cachePreset_def)
  have "keyed prow_id ?mine"
    by (rule keyed_filter [OF put_presets_keyed [OF kept]])
  then have "sorted (map prow_id ?mine)"
    by (simp add: keyed_def)
  then have order: "sorted (map preset_id (map data ?mine))"
    by (simp only: ids)
  have others: "fst (getCachedFavoritePresets av v ?cm) = fst (getCachedFavoritePresets av v cm)"
    if "v \<noteq> u" for v
  proof -
    have "\<forall>x\<in>set ?kept. prow_user_id x = v \<longrightarrow> prow_id x \<notin> preset_id ` set ps"
      using assms(5) that by auto
    with that have "filter (\<lambda>x. prow_user_id x = v) ?after = filter (\<lambda>x. prow_user_id x = v) ?kept"
      by (rule put_presets_other_user)
    also have "\<dots> = filter (\<lambda>x. prow_user_id x = v) ?rows"
      using that by (auto intro: filter_cong)
    finally show ?thesis
      by (simp add: getCachedFavoritePresets_open [OF open'(1,2)] open'(3)
          getCachedFavoritePresets_open [OF assms(1,2)])
  qed
  from read same order others show ?thesis by blast
qed

text \<open>
  C4, as the code has it. The database is open, the presets store holds one row per id, the
  presets \<open>ps\<close> have distinct ids, and no row cached for another user carries the id of a
  preset of \<open>ps\<close>. When the two parts of \<open>cacheFavoritePresets ps u\<close> reach the database
  one right after the other, which is what a call does that no other call overlaps, the
  lookup for \<open>u\<close> then returns exactly the presets of \<open>ps\<close>, each once, in ascending id
  order: what was cached for \<open>u\<close> before and is not in \<open>ps\<close> is gone. The lookup for every
  other user returns what it returned before.
\<close>

theorem refresh_alone_then_lookup:
  assumes "initialized cm" and "db cm = Some h"
    and "keyed prow_id (favorite_presets (idb cm))"
    and "distinct (map preset_id ps)"
    and "\<forall>x\<in>set (favorite_presets (idb cm)).
           prow_user_id x \<noteq> u \<longrightarrow> prow_id x \<notin> preset_id ` set ps"
  shows "(\<exists>found.
            fst (getCachedFavoritePresets av u
                   (cache_writes av [ClearRows u, PutRows tm ps u] cm)) = Inr found \<and>
            mset found = mset ps \<and> sorted (map preset_id found)) \<and>
         (\<forall>v. v \<noteq> u \<longrightarrow>
            fst (getCachedFavoritePresets av v
                   (cache_writes av [ClearRows u, PutRows tm ps u] cm)) =
            fst (getCachedFavoritePresets av v cm)) \<and>
         snd (cacheFavoritePresets av tm ps u cm) =
           cache_writes av [ClearRows u, PutRows tm ps u] cm"
proof -
  have p: "snd (cacheFavoritePresets av tm ps u cm) =
           cache_writes av [ClearRows u, PutRows tm ps u] cm"
    using assms(1) by (intro cacheFavoritePresets_parts) simp
  from cacheFavoritePresets_lookup [OF assms, of av tm] show ?thesis
    unfolding p using p by simp
qed

text \<open>The cache holds A and B for user u and D for user v; the refresh of u brings A
  and C.\<close>

theorem refresh_alone_then_lookup_witness:
  "fst (getCachedFavoritePresets True ''u''
          (cache_writes True
             [ClearRows ''u'',
              PutRows 2 [grimoire ''a'' ''A'' ''u'', grimoire ''c'' ''C'' ''u''] ''u'']
             cached_abd)) =
     Inr [grimoire ''a'' ''A'' ''u'', grimoire ''c'' ''C'' ''u''] \<and>
   fst (getCachedFavoritePresets True ''v''
          (cache_writes True
             [ClearRows ''u'',
              PutRows 2 [grimoire ''a'' ''A'' ''u'', grimoire ''c'' ''C'' ''u''] ''u'']
             cached_abd)) =
     Inr [grimoire ''d'' ''D'' ''v'']"
proof -
  let ?ps = "[grimoire ''a'' ''A'' ''u'', grimoire ''c'' ''C'' ''u'']"
  have r: "initialized cached_abd" "db cached_abd = Some GrimoireCache"
    by (simp_all add: cached_abd_def open_manager_def)
  have k: "keyed prow_id (favorite_presets (idb cached_abd))"
    by (simp add: cached_abd_def open_manager_def empty_db_def keyed_def cachePreset_def
        grimoire_def)
  have d: "distinct (map preset_id ?ps)"
    by (simp add: grimoire_def)
  have o: "\<forall>x\<in>set (favorite_presets (idb cached_abd)).
             prow_user_id x \<noteq> ''u'' \<longrightarrow> prow_id x \<notin> preset_id ` set ?ps"
    by (simp add: cached_abd_def open_manager_def empty_db_def cachePreset_def grimoire_def)
  have v: "fst (getCachedFavoritePresets True ''v'' cached_abd) = Inr [grimoire ''d'' ''D'' ''v'']"
    by code_simp
  have u: "fst (getCachedFavoritePresets True ''u''
             (cache_writes True [ClearRows ''u'', PutRows 2 ?ps ''u''] cached_abd)) = Inr ?ps"
    by code_simp
  from refresh_alone_then_lookup [OF r k d o, of True 2] u v
  show ?thesis by simp
qed

text \<open>
  C4 as stated fails when two calls overlap. The cache holds A and B for user u. A rename
  of A starts the refresh with A2 and B, the deletion of B that follows starts the refresh
  with A2 alone, and the two clearings reach the database before the two puts. After the
  later call has completed, the lookup for u returns A2 and B: B is back.
\<close>

theorem refresh_overlap_counterexample:
  "fst (getCachedFavoritePresets True ''u''
          (cache_writes True
             [ClearRows ''u'', ClearRows ''u'',
              PutRows 2 [grimoire ''a'' ''A2'' ''u'', grimoire ''b'' ''B'' ''u''] ''u'',
              PutRows 3 [grimoire ''a'' ''A2'' ''u''] ''u'']
             cached_abd)) =
     Inr [grimoire ''a'' ''A2'' ''u'', grimoire ''b'' ''B'' ''u'']"
  by code_simp

subsection \<open>Passes that overlap\<close>

lemma syncPendingOperations_parts:
  "syncPendingOperations env rendered s =
     (case sync_read env rendered s of
        (None, s1) \<Rightarrow> (False, s1)
      | (Some r, s1) \<Rightarrow> sync_replay env r s1)"
  by (simp add: syncPendingOperations_def sync_read_def sync_replay_def Let_def
      split: option.splits prod.splits sum.splits)

text \<open>
  C3 does not hold of the code. One create of user u is queued. Two passes overlap: the
  second reads the queue before the first has replayed anything, as nothing tests
  \<open>syncing\<close>. The first pass replays the create and removes it; the second replays it again
  from its own list. The create is sent twice, both passes report one operation
  synchronised and return \<open>true\<close>, and the queue is empty.
\<close>

theorem overlapping_passes_replay_twice:
  "queue (app_of True (queued [op_create])) = [op_create] \<and>
   fst (overlapping_passes (env_of True False) (status (app_of True (queued [op_create])))
          (app_of True (queued [op_create]))) = (True, True) \<and>
   supabase (snd (overlapping_passes (env_of True False)
                    (status (app_of True (queued [op_create])))
                    (app_of True (queued [op_create])))) =
     [Insert \<lparr>new_name = ''N'', new_description = None, new_user_id = ''u'',
              new_spell_ids = []\<rparr>,
      Insert \<lparr>new_name = ''N'', new_description = None, new_user_id = ''u'',
              new_spell_ids = []\<rparr>] \<and>
   toasts (snd (overlapping_passes (env_of True False)
                  (status (app_of True (queued [op_create])))
                  (app_of True (queued [op_create])))) =
     [Sincronizado 1, Sincronizado 1] \<and>
   queue (snd (overlapping_passes (env_of True False)
                 (status (app_of True (queued [op_create])))
                 (app_of True (queued [op_create])))) = []"
  by (simp add: overlapping_passes_def sync_read_def sync_replay_def Let_def
      getPendingOperations_def removePendingOperation_def setMetadata_def record_sync_def
      processOperation_def ensureInitialized_def store_delete_def queue_def
      env_of_def app_of_def queued_def open_manager_def empty_db_def op_create_def)

end
